theory Spec2Isabelle
  imports Main "HOL-Library.Word" "HOL-Library.AList" "HOL-Library.Char_ord" "HOL-Library.List_Lexorder"
begin

section \<open>Python primitives used by the storage package\<close>

subsection \<open>Decimal rendering of integers\<close>

text \<open>
  \<^verbatim>\<open>str(n)\<close> and the f-string field \<^verbatim>\<open>{n}\<close> of a Python \<^verbatim>\<open>int\<close>: the decimal
  digits, most significant first, with a leading minus sign for a negative number.
\<close>

definition digit_char :: "nat \<Rightarrow> char" where
  "digit_char k = ''0123456789'' ! (k mod 10)"

fun str_nat :: "nat \<Rightarrow> string" where
  "str_nat n = (if n < 10 then [digit_char n] else str_nat (n div 10) @ [digit_char (n mod 10)])"

declare str_nat.simps [simp del]

definition str_int :: "int \<Rightarrow> string" where
  "str_int i = (if i < 0 then CHR ''-'' # str_nat (nat (- i)) else str_nat (nat i))"

text \<open>
  \<^verbatim>\<open>str.zfill\<close>-like padding on the left with the character 0, and the format
  specifications \<^verbatim>\<open>02d\<close> and \<^verbatim>\<open>04d\<close>: the sign counts towards the width and the
  zeros go between the sign and the digits.
\<close>

definition zero_pad :: "nat \<Rightarrow> string \<Rightarrow> string" where
  "zero_pad w s = replicate (w - length s) CHR ''0'' @ s"

definition fmt_0wd :: "nat \<Rightarrow> int \<Rightarrow> string" where
  "fmt_0wd w i =
     (if i < 0 then CHR ''-'' # zero_pad (w - 1) (str_nat (nat (- i)))
      else zero_pad w (str_nat (nat i)))"

section \<open>storage/paths.py\<close>

text \<open>\<^verbatim>\<open>datetime.date\<close>: the three integer attributes the code reads.\<close>

record date =
  d_year :: int
  d_month :: int
  d_day :: int

text \<open>
  The values a \<^verbatim>\<open>datetime.date\<close> object can hold: its constructor raises
  \<^verbatim>\<open>ValueError\<close> outside \<^verbatim>\<open>MINYEAR = 1\<close> .. \<^verbatim>\<open>MAXYEAR = 9999\<close>, outside the months
  1 .. 12 and outside the days of the month (proleptic Gregorian calendar).
\<close>

definition is_leap :: "int \<Rightarrow> bool" where
  "is_leap y = (y mod 4 = 0 \<and> (y mod 100 \<noteq> 0 \<or> y mod 400 = 0))"

definition days_in_month :: "int \<Rightarrow> int \<Rightarrow> int" where
  "days_in_month y m =
     (if m = 2 then (if is_leap y then 29 else 28)
      else if m = 4 \<or> m = 6 \<or> m = 9 \<or> m = 11 then 30 else 31)"

definition valid_ymd :: "int \<Rightarrow> int \<Rightarrow> int \<Rightarrow> bool" where
  "valid_ymd y m d =
     (1 \<le> y \<and> y \<le> 9999 \<and> 1 \<le> m \<and> m \<le> 12 \<and> 1 \<le> d \<and> d \<le> days_in_month y m)"

definition valid_date :: "date \<Rightarrow> bool" where
  "valid_date d = valid_ymd (d_year d) (d_month d) (d_day d)"

text \<open>
  \<^verbatim>\<open>date_partition(d, level="day")\<close>. The level is an unchecked string at run time
  (\<^verbatim>\<open>Literal\<close> is a type hint only): anything but "year" and "month" takes the last
  \<^verbatim>\<open>return\<close>.
\<close>

definition date_partition :: "date \<Rightarrow> string \<Rightarrow> string" where
  "date_partition d level =
     (if level = ''year'' then ''year='' @ str_int (d_year d)
      else if level = ''month'' then
        ''year='' @ str_int (d_year d) @ ''/month='' @ fmt_0wd 2 (d_month d)
      else
        ''year='' @ str_int (d_year d) @ ''/month='' @ fmt_0wd 2 (d_month d)
          @ ''/day='' @ fmt_0wd 2 (d_day d))"

text \<open>The call with the \<^verbatim>\<open>level\<close> argument left out.\<close>

definition date_partition_default :: "date \<Rightarrow> string" where
  "date_partition_default d = date_partition d ''day''"

section \<open>Python primitives used by storage/parquet.py\<close>

subsection \<open>Exceptions\<close>

text \<open>
  The exceptions that can leave the modelled code. \<open>OSError\<close> carries the path of the
  failed write, \<open>RuntimeError\<close> its message.
\<close>

datatype error =
    ValueError
  | UnicodeEncodeError
  | OSError string
  | RuntimeError string

subsection \<open>Strings\<close>

text \<open>
  Identifiers, dates, paths and SQL text are \<^typ>\<open>string\<close>: one \<^typ>\<open>char\<close> per code
  point, which covers the code points below 256. Article bodies, where the number of
  characters of arbitrary Unicode text matters, are lists of code points (\<open>unicode\<close>), and
  byte strings are lists of 8-bit words.
\<close>

type_synonym byte = "8 word"
type_synonym unicode = "nat list"

text \<open>\<^verbatim>\<open>sep.join(xs)\<close>\<close>

fun join :: "string \<Rightarrow> string list \<Rightarrow> string" where
  "join sep [] = []"
| "join sep [x] = x"
| "join sep (x # y # ys) = x @ sep @ join sep (y # ys)"

subsection \<open>UTF-8\<close>

text \<open>
  \<^verbatim>\<open>bytes.decode("utf-8")\<close> with the default strict error handler: shortest-form
  sequences of one to four bytes, no surrogates, nothing above U+10FFFF; the first
  ill-formed sequence raises \<^verbatim>\<open>UnicodeDecodeError\<close> (the result \<open>None\<close>).
\<close>

definition is_cont :: "nat \<Rightarrow> bool" where
  "is_cont c = (0x80 \<le> c \<and> c \<le> 0xBF)"

text \<open>
  One code point from the front of a non-empty byte sequence \<open>b # bs\<close>, with the
  number of bytes of \<open>bs\<close> it takes.
\<close>

definition utf8_next :: "nat \<Rightarrow> nat list \<Rightarrow> (nat \<times> nat) option" where
  "utf8_next b bs =
     (if b < 0x80 then Some (b, 0)
      else if 0xC2 \<le> b \<and> b \<le> 0xDF then
        (case bs of
           c1 # r \<Rightarrow>
             if is_cont c1 then Some ((b - 0xC0) * 64 + (c1 - 0x80), 1) else None
         | _ \<Rightarrow> None)
      else if 0xE0 \<le> b \<and> b \<le> 0xEF then
        (case bs of
           c1 # c2 # r \<Rightarrow>
             if (if b = 0xE0 then 0xA0 else 0x80) \<le> c1
                \<and> c1 \<le> (if b = 0xED then 0x9F else 0xBF) \<and> is_cont c2
             then Some ((b - 0xE0) * 4096 + (c1 - 0x80) * 64 + (c2 - 0x80), 2)
             else None
         | _ \<Rightarrow> None)
      else if 0xF0 \<le> b \<and> b \<le> 0xF4 then
        (case bs of
           c1 # c2 # c3 # r \<Rightarrow>
             if (if b = 0xF0 then 0x90 else 0x80) \<le> c1
                \<and> c1 \<le> (if b = 0xF4 then 0x8F else 0xBF) \<and> is_cont c2 \<and> is_cont c3
             then Some ((b - 0xF0) * 262144 + (c1 - 0x80) * 4096 + (c2 - 0x80) * 64
                        + (c3 - 0x80), 3)
             else None
         | _ \<Rightarrow> None)
      else None)"

function utf8_dec :: "nat list \<Rightarrow> unicode option" where
  "utf8_dec [] = Some []"
| "utf8_dec (b # bs) =
     (case utf8_next b bs of
        None \<Rightarrow> None
      | Some (c, k) \<Rightarrow> map_option ((#) c) (utf8_dec (drop k bs)))"
  by pat_completeness auto
termination
  by (relation "measure length") auto

definition utf8_decode :: "byte list \<Rightarrow> unicode option" where
  "utf8_decode bs = utf8_dec (map unat bs)"

text \<open>
  \<^verbatim>\<open>str.encode("utf-8")\<close>: a lone surrogate (U+D800 .. U+DFFF) raises
  \<^verbatim>\<open>UnicodeEncodeError\<close>. A Python \<^verbatim>\<open>str\<close> holds no code point above U+10FFFF; the
  model has no encoding for such a number either.
\<close>

definition utf8_enc1 :: "nat \<Rightarrow> nat list option" where
  "utf8_enc1 c =
     (if c < 0x80 then Some [c]
      else if c < 0x800 then Some [0xC0 + c div 64, 0x80 + c mod 64]
      else if c < 0x10000 then
        (if 0xD800 \<le> c \<and> c \<le> 0xDFFF then None
         else Some [0xE0 + c div 4096, 0x80 + (c div 64) mod 64, 0x80 + c mod 64])
      else if c < 0x110000 then
        Some [0xF0 + c div 262144, 0x80 + (c div 4096) mod 64, 0x80 + (c div 64) mod 64,
              0x80 + c mod 64]
      else None)"

fun utf8_enc :: "unicode \<Rightarrow> nat list option" where
  "utf8_enc [] = Some []"
| "utf8_enc (c # cs) =
     (case utf8_enc1 c of
        None \<Rightarrow> None
      | Some bs \<Rightarrow> map_option ((@) bs) (utf8_enc cs))"

definition utf8_encode :: "unicode \<Rightarrow> byte list option" where
  "utf8_encode t = map_option (map of_nat) (utf8_enc t)"

subsection \<open>datetime\<close>

record datetime =
  dt_year :: int
  dt_month :: int
  dt_day :: int
  dt_hour :: int
  dt_minute :: int
  dt_second :: int
  dt_microsecond :: int

text \<open>\<^verbatim>\<open>datetime.date()\<close>\<close>

definition date_of :: "datetime \<Rightarrow> date" where
  "date_of t = \<lparr>d_year = dt_year t, d_month = dt_month t, d_day = dt_day t\<rparr>"

text \<open>
  \<^verbatim>\<open>strftime("%Y%m%d_%H%M%S")\<close>. The year is printed as the C library prints it (no
  padding on Linux); from the year 1000 on, which the wall clock is past, every
  platform agrees.
\<close>

definition strftime_compact :: "datetime \<Rightarrow> string" where
  "strftime_compact t =
     str_int (dt_year t) @ fmt_0wd 2 (dt_month t) @ fmt_0wd 2 (dt_day t) @ ''_''
       @ fmt_0wd 2 (dt_hour t) @ fmt_0wd 2 (dt_minute t) @ fmt_0wd 2 (dt_second t)"

text \<open>\<^verbatim>\<open>datetime.isoformat()\<close>: the microseconds are printed only when they are not 0.\<close>

definition isoformat :: "datetime \<Rightarrow> string" where
  "isoformat t =
     fmt_0wd 4 (dt_year t) @ ''-'' @ fmt_0wd 2 (dt_month t) @ ''-'' @ fmt_0wd 2 (dt_day t)
       @ ''T'' @ fmt_0wd 2 (dt_hour t) @ '':'' @ fmt_0wd 2 (dt_minute t) @ '':''
       @ fmt_0wd 2 (dt_second t)
       @ (if dt_microsecond t \<noteq> 0 then ''.'' @ fmt_0wd 6 (dt_microsecond t) else [])"

text \<open>
  \<^verbatim>\<open>datetime.strptime(s, "%Y-%m-%d").date()\<close>. The format compiles to the regular
  expression
  \<^verbatim>\<open>(?P<Y>\d\d\d\d)-(?P<m>1[0-2]|0[1-9]|[1-9])-(?P<d>3[0-1]|[1-2]\d|0[1-9]|[1-9]| [1-9])\<close>,
  matched at the start of the string with the alternatives tried in this order;
  text left after the match, no match, and a year, month and day that are no
  calendar date all raise \<^verbatim>\<open>ValueError\<close>.
\<close>

definition is_digit :: "char \<Rightarrow> bool" where
  "is_digit c = (c \<in> set ''0123456789'')"

definition digit_val :: "char \<Rightarrow> int" where
  "digit_val c = int (of_char c) - 48"

definition in_range :: "char \<Rightarrow> char \<Rightarrow> char \<Rightarrow> bool" where
  "in_range lo hi c = (is_digit c \<and> digit_val lo \<le> digit_val c \<and> digit_val c \<le> digit_val hi)"

text \<open>The month group: every alternative that matches a prefix, in priority order.\<close>

definition match_month :: "string \<Rightarrow> (int \<times> string) list" where
  "match_month s =
     (case s of
        c1 # c2 # r \<Rightarrow>
          (if c1 = CHR ''1'' \<and> in_range CHR ''0'' CHR ''2'' c2 then [(10 + digit_val c2, r)]
           else [])
          @ (if c1 = CHR ''0'' \<and> in_range CHR ''1'' CHR ''9'' c2 then [(digit_val c2, r)]
             else [])
      | _ \<Rightarrow> [])
     @ (case s of
          c1 # r \<Rightarrow> if in_range CHR ''1'' CHR ''9'' c1 then [(digit_val c1, r)] else []
        | _ \<Rightarrow> [])"

text \<open>The day group ends the expression: the first alternative that matches wins.\<close>

definition match_day :: "string \<Rightarrow> (int \<times> string) option" where
  "match_day s =
     (case s of
        c1 # c2 # r \<Rightarrow>
          if c1 = CHR ''3'' \<and> in_range CHR ''0'' CHR ''1'' c2 then Some (30 + digit_val c2, r)
          else if in_range CHR ''1'' CHR ''2'' c1 \<and> is_digit c2
            then Some (10 * digit_val c1 + digit_val c2, r)
          else if c1 = CHR ''0'' \<and> in_range CHR ''1'' CHR ''9'' c2 then Some (digit_val c2, r)
          else if in_range CHR ''1'' CHR ''9'' c1 then Some (digit_val c1, c2 # r)
          else if c1 = CHR '' '' \<and> in_range CHR ''1'' CHR ''9'' c2 then Some (digit_val c2, r)
          else None
      | [c1] \<Rightarrow> if in_range CHR ''1'' CHR ''9'' c1 then Some (digit_val c1, []) else None
      | [] \<Rightarrow> None)"

definition after_month :: "int \<times> string \<Rightarrow> (int \<times> int \<times> string) option" where
  "after_month mr =
     (case snd mr of
        c # r \<Rightarrow>
          if c = CHR ''-'' then
            (case match_day r of Some (d, r') \<Rightarrow> Some (fst mr, d, r') | None \<Rightarrow> None)
          else None
      | [] \<Rightarrow> None)"

definition strptime_ymd :: "string \<Rightarrow> error + date" where
  "strptime_ymd s =
     (case s of
        y1 # y2 # y3 # y4 # c # r \<Rightarrow>
          if is_digit y1 \<and> is_digit y2 \<and> is_digit y3 \<and> is_digit y4 \<and> c = CHR ''-'' then
            (case List.map_filter after_month (match_month r) of
               [] \<Rightarrow> Inl ValueError
             | (m, d, rest) # _ \<Rightarrow>
                 let y = 1000 * digit_val y1 + 100 * digit_val y2 + 10 * digit_val y3
                         + digit_val y4
                 in if rest \<noteq> [] then Inl ValueError
                    else if valid_ymd y m d then Inr \<lparr>d_year = y, d_month = m, d_day = d\<rparr>
                    else Inl ValueError)
          else Inl ValueError
      | _ \<Rightarrow> Inl ValueError)"

subsection \<open>hashlib\<close>

text \<open>
  The two digests of the standard library are parameters of the model:
  \<open>md5_hexdigest h s\<close> stands for \<^verbatim>\<open>hashlib.md5(s.encode("utf-8")).hexdigest()\<close> and
  \<open>sha256_hexdigest h b\<close> for \<^verbatim>\<open>hashlib.sha256(b).hexdigest()\<close>.
\<close>

record hashlib =
  md5_hexdigest :: "string \<Rightarrow> string"
  sha256_hexdigest :: "byte list \<Rightarrow> string"

section \<open>Domain objects and rows\<close>

text \<open>
  The objects of the external contract package, reduced to the attributes that
  \<^verbatim>\<open>save_editions\<close> reads, at the types it converts them to. An attribute read with
  \<^verbatim>\<open>getattr(..., default)\<close> is optional.
\<close>

record edition_metadata =
  edition_id :: string
  publication_date :: string
  edition_number :: int
  supplement :: bool
  edition_type_id :: int
  edition_type_name :: string
  pdf_url :: string

record article_metadata =
  article_id :: string
  article_edition_id :: string
  title :: "string option"
  hierarchy_path :: "string list option"
  article_identifier :: "string option"
  protocol :: "string option"

text \<open>\<^verbatim>\<open>raw_content\<close> is \<^verbatim>\<open>None\<close>, a byte string or a text string.\<close>

datatype raw_content = RawNone | RawBytes "byte list" | RawStr unicode

text \<open>
  \<^verbatim>\<open>content_type\<close> is a member of the \<^verbatim>\<open>ContentType\<close> enumeration (with its
  \<^verbatim>\<open>value\<close>) or any other object (with its \<^verbatim>\<open>str\<close>).
\<close>

datatype content_type = ContentType string | OtherType string

record article_content =
  raw_content :: raw_content
  content_type :: content_type

record article =
  article_metadata :: article_metadata
  article_content :: article_content

record gazette_edition =
  metadata :: edition_metadata
  articles :: "article list"

record edition_row =
  er_municipality :: string
  er_edition_id :: string
  er_publication_date :: date
  er_edition_number :: int
  er_supplement :: bool
  er_edition_type_id :: int
  er_edition_type_name :: string
  er_pdf_url :: string
  er_total_articles :: nat
  er_processed_at :: datetime
  er_edition_hash :: string
  er_batch_id :: string
  er_year :: int
  er_month :: int
  er_day :: int

text \<open>
  \<open>ar_hierarchy_path\<close> holds the list that the code serialises with \<^verbatim>\<open>json.dumps\<close>.
  The three content columns and \<open>ar_inline_text\<close> are nullable.
\<close>

record article_row =
  ar_municipality :: string
  ar_article_id :: string
  ar_edition_id :: string
  ar_edition_hash :: string
  ar_publication_date :: date
  ar_title :: string
  ar_hierarchy_path :: "string list"
  ar_identifier :: string
  ar_protocol :: string
  ar_depth :: nat
  ar_content_type :: string
  ar_content_size :: nat
  ar_content_hash :: "string option"
  ar_content_path :: "string option"
  ar_inline_text :: "unicode option"
  ar_processed_at :: datetime
  ar_batch_id :: string
  ar_year :: int
  ar_month :: int
  ar_day :: int

record relationship_row =
  rr_municipality :: string
  rr_edition_id :: string
  rr_article_id :: string
  rr_edition_hash :: string
  rr_publication_date :: string
  rr_batch_id :: string
  rr_processed_at :: string

datatype table =
    EditionsTable "edition_row list"
  | ArticlesTable "article_row list"
  | RelationshipsTable "relationship_row list"

section \<open>storage/base.py, storage/local.py: the storage backend\<close>

text \<open>The sidecar record that \<^verbatim>\<open>_write_content_blob\<close> passes as \<^verbatim>\<open>metadata\<close>.\<close>

record blob_metadata =
  bm_content_hash :: string
  bm_content_size :: nat
  bm_created_at :: string

datatype file_content =
    BytesFile "byte list"
  | MetaJson blob_metadata
  | ParquetFile table

text \<open>Every call of a backend method is recorded, in call order.\<close>

datatype backend_call =
    Exists string
  | WriteBytes string
  | WriteParquet string
  | ListFiles string "string option"
  | GetUri string

text \<open>
  A \<^verbatim>\<open>LocalBackend\<close> with the file system below its base directory: the regular
  files by relative path, and the paths at which the operating system refuses a
  write (\<^verbatim>\<open>OSError\<close>: no space, no permission).
\<close>

record backend =
  base_path :: string
  files :: "(string \<times> file_content) list"
  write_fails :: "string \<Rightarrow> bool"
  calls :: "backend_call list"

definition called :: "backend_call \<Rightarrow> backend \<Rightarrow> backend" where
  "called c b = b\<lparr>calls := calls b @ [c]\<rparr>"

definition exists :: "backend \<Rightarrow> string \<Rightarrow> bool \<times> backend" where
  "exists b path = (map_of (files b) path \<noteq> None, called (Exists path) b)"

text \<open>
  \<^verbatim>\<open>write_bytes\<close>: the file, then the sidecar \<^verbatim>\<open>path + ".meta.json"\<close> when metadata is
  given (\<^verbatim>\<open>with_suffix(suffix + ".meta.json")\<close> of a path whose name has a suffix).
\<close>

definition write_bytes ::
  "backend \<Rightarrow> string \<Rightarrow> byte list \<Rightarrow> blob_metadata option \<Rightarrow> (error + string) \<times> backend"
where
  "write_bytes b path data meta =
     (let b1 = called (WriteBytes path) b in
      if write_fails b path then (Inl (OSError path), b1)
      else
        let fs1 = AList.update path (BytesFile data) (files b1);
            fs2 = (case meta of
                     None \<Rightarrow> fs1
                   | Some m \<Rightarrow> AList.update (path @ ''.meta.json'') (MetaJson m) fs1)
        in (Inr path, b1\<lparr>files := fs2\<rparr>))"

definition write_parquet :: "backend \<Rightarrow> string \<Rightarrow> table \<Rightarrow> (error + string) \<times> backend" where
  "write_parquet b path tbl =
     (let b1 = called (WriteParquet path) b in
      if write_fails b path then (Inl (OSError path), b1)
      else (Inr path, b1\<lparr>files := AList.update path (ParquetFile tbl) (files b1)\<rparr>))"

text \<open>
  \<^verbatim>\<open>PurePath.suffix\<close>: the last dot of the final path component and what follows,
  unless that dot is the first or the last character of the component.
\<close>

definition path_name :: "string \<Rightarrow> string" where
  "path_name p = rev (takeWhile (\<lambda>c. c \<noteq> CHR ''/'') (rev p))"

definition path_suffix :: "string \<Rightarrow> string" where
  "path_suffix p =
     (let name = path_name p;
          k = length (takeWhile (\<lambda>c. c \<noteq> CHR ''.'') (rev name))
      in if CHR ''.'' \<in> set name \<and> 0 < k \<and> Suc k < length name
         then drop (length name - Suc k) name else [])"

definition is_below :: "string \<Rightarrow> string \<Rightarrow> bool" where
  "is_below dir p = (take (Suc (length dir)) p = dir @ ''/'')"

text \<open>
  \<^verbatim>\<open>list_files\<close>: the files below \<^verbatim>\<open>prefix\<close> with the given suffix, sorted; the empty
  list when nothing is there.
\<close>

definition list_files :: "backend \<Rightarrow> string \<Rightarrow> string option \<Rightarrow> string list \<times> backend" where
  "list_files b pre suffix =
     (sort (remdups (filter
        (\<lambda>p. is_below pre p \<and> (case suffix of None \<Rightarrow> True | Some x \<Rightarrow> path_suffix p = x))
        (map fst (files b)))),
      called (ListFiles pre suffix) b)"

definition get_uri :: "backend \<Rightarrow> string \<Rightarrow> string \<times> backend" where
  "get_uri b path = (''file://'' @ base_path b @ ''/'' @ path, called (GetUri path) b)"

section \<open>The process around the storage: clock, logger, backend\<close>

datatype log_level = DEBUG | INFO | WARNING | ERROR

text \<open>The messages of storage/parquet.py, by what they report.\<close>

datatype log_message =
    NoEditionsToSave
  | EditionsSaved nat
  | ArticlesSaved nat
  | RelationshipsSaved nat
  | SaveFailed error
  | NoArticleFiles

text \<open>
  \<open>clock w k\<close> is what the \<open>k\<close>-th call of \<^verbatim>\<open>datetime.now()\<close> returns; \<open>ticks\<close> counts
  the calls made.
\<close>

record world =
  backend :: backend
  clock :: "nat \<Rightarrow> datetime"
  ticks :: nat
  log :: "(log_level \<times> log_message) list"

definition now :: "world \<Rightarrow> datetime \<times> world" where
  "now w = (clock w (ticks w), w\<lparr>ticks := Suc (ticks w)\<rparr>)"

definition logger :: "log_level \<Rightarrow> log_message \<Rightarrow> world \<Rightarrow> world" where
  "logger lvl msg w = w\<lparr>log := log w @ [(lvl, msg)]\<rparr>"

section \<open>storage/parquet.py\<close>

definition CONTENT_INLINE_THRESHOLD :: nat where
  "CONTENT_INLINE_THRESHOLD = 2000"

definition CONTENT_DIRNAME :: string where
  "CONTENT_DIRNAME = ''content''"

text \<open>The attributes of a \<^verbatim>\<open>ParquetStorage\<close> besides its backend.\<close>

record parquet_storage =
  partition_by :: string
  enable_duckdb :: bool

subsection \<open>Helpers\<close>

definition generate_edition_hash :: "hashlib \<Rightarrow> gazette_edition \<Rightarrow> string" where
  "generate_edition_hash h edition =
     md5_hexdigest h
       (edition_id (metadata edition) @ ''_'' @ publication_date (metadata edition) @ ''_''
          @ str_nat (length (articles edition)))"

datatype str_or_bytes = PyStr unicode | PyBytes "byte list"

record content_blob =
  content_hash :: string
  content_path :: string
  content_size :: nat

definition blob_path :: "string \<Rightarrow> string" where
  "blob_path hash =
     CONTENT_DIRNAME @ ''/'' @ take 2 hash @ ''/'' @ take 2 (drop 2 hash) @ ''/''
       @ (hash @ ''.bin'')"

definition write_content_blob ::
  "hashlib \<Rightarrow> str_or_bytes \<Rightarrow> world \<Rightarrow> (error + content_blob) \<times> world"
where
  "write_content_blob h raw w =
     (case (case raw of PyStr t \<Rightarrow> utf8_encode t | PyBytes b \<Rightarrow> Some b) of
        None \<Rightarrow> (Inl UnicodeEncodeError, w)
      | Some raw_bytes \<Rightarrow>
          let size = length raw_bytes;
              hash = sha256_hexdigest h raw_bytes;
              path = blob_path hash;
              blob = \<lparr>content_hash = hash, content_path = path, content_size = size\<rparr>;
              (present, b1) = exists (backend w) path;
              w1 = w\<lparr>backend := b1\<rparr>
          in if \<not> present then
               let (t, w2) = now w1;
                   (res, b2) =
                     write_bytes (backend w2) path raw_bytes
                       (Some \<lparr>bm_content_hash = hash, bm_content_size = size,
                               bm_created_at = isoformat t\<rparr>);
                   w3 = w2\<lparr>backend := b2\<rparr>
               in (case res of Inl e \<Rightarrow> (Inl e, w3) | Inr _ \<Rightarrow> (Inr blob, w3))
             else (Inr blob, w1))"

record date_parts =
  year :: int
  month :: int
  day :: int

definition parts_of :: "date \<Rightarrow> date_parts" where
  "parts_of d = \<lparr>year = d_year d, month = d_month d, day = d_day d\<rparr>"

definition publication_date_parts :: "string \<Rightarrow> world \<Rightarrow> date_parts \<times> world" where
  "publication_date_parts pd w =
     (case strptime_ymd pd of
        Inr d \<Rightarrow> (parts_of d, w)
      | Inl _ \<Rightarrow> (let (t, w1) = now w in (parts_of (date_of t), w1)))"

subsection \<open>save\_editions\<close>

text \<open>The two keyword arguments that \<^verbatim>\<open>save_editions\<close> reads from \<^verbatim>\<open>kwargs\<close>.\<close>

record save_kwargs =
  kw_municipality :: "string option"
  kw_batch_id :: "string option"

text \<open>The returned dictionary: three keys for an empty batch, six otherwise.\<close>

record stats =
  st_municipality :: "string option"
  st_editions :: nat
  st_articles :: nat
  st_relationships :: nat
  st_timestamp :: "string option"
  st_batch_id :: "string option"

text \<open>
  Lines 177 to 186: the body as text (\<open>None\<close> when the bytes are no UTF-8) and as
  bytes. Encoding a text body can raise.
\<close>

definition normalize_content :: "raw_content \<Rightarrow> error + (unicode option \<times> byte list)" where
  "normalize_content rc =
     (case rc of
        RawBytes b \<Rightarrow> Inr (utf8_decode b, b)
      | _ \<Rightarrow>
          let raw_text = (case rc of RawStr t \<Rightarrow> t | _ \<Rightarrow> [])
          in (case utf8_encode raw_text of
                None \<Rightarrow> Inl UnicodeEncodeError
              | Some raw_bytes \<Rightarrow> Inr (Some raw_text, raw_bytes)))"

text \<open>
  Lines 188 to 198: the content columns \<open>(content_hash, content_path, content_size)\<close>
  and \<open>inline_text\<close>.
\<close>

definition place_content ::
  "hashlib \<Rightarrow> unicode option \<Rightarrow> byte list \<Rightarrow> world
     \<Rightarrow> (error + ((string option \<times> string option \<times> nat) \<times> unicode option)) \<times> world"
where
  "place_content h raw_text raw_bytes w =
     (if raw_text = None \<or> length (the raw_text) > CONTENT_INLINE_THRESHOLD then
        (case write_content_blob h (PyBytes raw_bytes) w of
           (Inl e, w1) \<Rightarrow> (Inl e, w1)
         | (Inr blob, w1) \<Rightarrow>
             (Inr ((Some (content_hash blob), Some (content_path blob), content_size blob),
                   None), w1))
      else (Inr ((None, None, length raw_bytes), raw_text), w))"

text \<open>The body of the loop over the articles of an edition (lines 174 to 245).\<close>

definition process_article ::
  "hashlib \<Rightarrow> string \<Rightarrow> string \<Rightarrow> edition_metadata \<Rightarrow> string \<Rightarrow> date \<Rightarrow> date_parts
     \<Rightarrow> article \<Rightarrow> world \<Rightarrow> (error + (article_row \<times> relationship_row)) \<times> world"
where
  "process_article h municipality batch_id meta edition_hash pub_date_obj pub_parts art w =
     (case normalize_content (raw_content (article_content art)) of
        Inl e \<Rightarrow> (Inl e, w)
      | Inr (raw_text, raw_bytes) \<Rightarrow>
          (case place_content h raw_text raw_bytes w of
             (Inl e, w1) \<Rightarrow> (Inl e, w1)
           | (Inr ((c_hash, c_path, c_size), inline_text), w1) \<Rightarrow>
               let hierarchy =
                     (case hierarchy_path (article_metadata art) of None \<Rightarrow> [] | Some p \<Rightarrow> p);
                   (t1, w2) = now w1;
                   arow =
                     \<lparr>ar_municipality = municipality,
                      ar_article_id = article_id (article_metadata art),
                      ar_edition_id = article_edition_id (article_metadata art),
                      ar_edition_hash = edition_hash,
                      ar_publication_date = pub_date_obj,
                      ar_title = (case title (article_metadata art) of None \<Rightarrow> [] | Some x \<Rightarrow> x),
                      ar_hierarchy_path = hierarchy,
                      ar_identifier =
                        (case article_identifier (article_metadata art) of
                           None \<Rightarrow> [] | Some x \<Rightarrow> x),
                      ar_protocol =
                        (case protocol (article_metadata art) of None \<Rightarrow> [] | Some x \<Rightarrow> x),
                      ar_depth = length hierarchy,
                      ar_content_type =
                        (case content_type (article_content art) of
                           ContentType v \<Rightarrow> v | OtherType x \<Rightarrow> x),
                      ar_content_size = c_size,
                      ar_content_hash = c_hash,
                      ar_content_path = c_path,
                      ar_inline_text = inline_text,
                      ar_processed_at = t1,
                      ar_batch_id = batch_id,
                      ar_year = year pub_parts,
                      ar_month = month pub_parts,
                      ar_day = day pub_parts\<rparr>;
                   (t2, w3) = now w2;
                   rrow =
                     \<lparr>rr_municipality = municipality,
                      rr_edition_id = edition_id meta,
                      rr_article_id = article_id (article_metadata art),
                      rr_edition_hash = edition_hash,
                      rr_publication_date = publication_date meta,
                      rr_batch_id = batch_id,
                      rr_processed_at = isoformat t2\<rparr>
               in (Inr (arow, rrow), w3)))"

text \<open>The loop over the articles: the rows are appended in article order.\<close>

fun articles_loop ::
  "hashlib \<Rightarrow> string \<Rightarrow> string \<Rightarrow> edition_metadata \<Rightarrow> string \<Rightarrow> date \<Rightarrow> date_parts
     \<Rightarrow> article list \<Rightarrow> article_row list \<times> relationship_row list \<Rightarrow> world
     \<Rightarrow> (error + (article_row list \<times> relationship_row list)) \<times> world"
where
  "articles_loop h mun bid meta eh pd pp [] acc w = (Inr acc, w)"
| "articles_loop h mun bid meta eh pd pp (a # as) acc w =
     (case process_article h mun bid meta eh pd pp a w of
        (Inl e, w1) \<Rightarrow> (Inl e, w1)
      | (Inr (arow, rrow), w1) \<Rightarrow>
          articles_loop h mun bid meta eh pd pp as (fst acc @ [arow], snd acc @ [rrow]) w1)"

text \<open>
  The body of the loop over the editions (lines 146 to 245). The date is parsed
  twice: inside \<^verbatim>\<open>_publication_date_parts\<close>, which catches the exception, and on
  line 151, which does not.
\<close>

definition process_edition ::
  "hashlib \<Rightarrow> string \<Rightarrow> string \<Rightarrow> gazette_edition
     \<Rightarrow> edition_row list \<times> article_row list \<times> relationship_row list \<Rightarrow> world
     \<Rightarrow> (error + (edition_row list \<times> article_row list \<times> relationship_row list)) \<times> world"
where
  "process_edition h municipality batch_id edition acc w =
     (let meta = metadata edition;
          edition_hash = generate_edition_hash h edition;
          (pub_parts, w1) = publication_date_parts (publication_date meta) w
      in case strptime_ymd (publication_date meta) of
           Inl e \<Rightarrow> (Inl e, w1)
         | Inr pub_date_obj \<Rightarrow>
             let (t, w2) = now w1;
                 erow =
                   \<lparr>er_municipality = municipality,
                    er_edition_id = edition_id meta,
                    er_publication_date = pub_date_obj,
                    er_edition_number = edition_number meta,
                    er_supplement = supplement meta,
                    er_edition_type_id = edition_type_id meta,
                    er_edition_type_name = edition_type_name meta,
                    er_pdf_url = pdf_url meta,
                    er_total_articles = length (articles edition),
                    er_processed_at = t,
                    er_edition_hash = edition_hash,
                    er_batch_id = batch_id,
                    er_year = year pub_parts,
                    er_month = month pub_parts,
                    er_day = day pub_parts\<rparr>
             in (case articles_loop h municipality batch_id meta edition_hash pub_date_obj
                        pub_parts (articles edition) (fst (snd acc), snd (snd acc)) w2 of
                   (Inl e, w3) \<Rightarrow> (Inl e, w3)
                 | (Inr (arows, rrows), w3) \<Rightarrow> (Inr (fst acc @ [erow], arows, rrows), w3)))"

fun editions_loop ::
  "hashlib \<Rightarrow> string \<Rightarrow> string \<Rightarrow> gazette_edition list
     \<Rightarrow> edition_row list \<times> article_row list \<times> relationship_row list \<Rightarrow> world
     \<Rightarrow> (error + (edition_row list \<times> article_row list \<times> relationship_row list)) \<times> world"
where
  "editions_loop h mun bid [] acc w = (Inr acc, w)"
| "editions_loop h mun bid (e # es) acc w =
     (case process_edition h mun bid e acc w of
        (Inl err, w1) \<Rightarrow> (Inl err, w1)
      | (Inr acc1, w1) \<Rightarrow> editions_loop h mun bid es acc1 w1)"

text \<open>
  One of the three guarded writes of lines 259 to 280: nothing for an empty row
  set; otherwise the table is written and the count logged.
\<close>

definition write_rows ::
  "bool \<Rightarrow> string \<Rightarrow> table \<Rightarrow> log_message \<Rightarrow> world \<Rightarrow> (error + bool) \<times> world"
where
  "write_rows nonempty path tbl msg w =
     (if nonempty then
        (case write_parquet (backend w) path tbl of
           (Inl e, b1) \<Rightarrow> (Inl e, w\<lparr>backend := b1\<rparr>)
         | (Inr _, b1) \<Rightarrow> (Inr True, logger INFO msg (w\<lparr>backend := b1\<rparr>)))
      else (Inr False, w))"

text \<open>
  Lines 248 to 286: editions, then articles, then relationships. The handler logs
  the exception and raises it again. The rows are typed as the schemas want them,
  so building a table from them (\<^verbatim>\<open>pa.Table.from_pylist\<close>) is taken to succeed; the
  failures of this block are those of \<^verbatim>\<open>write_parquet\<close>.
\<close>

definition persist ::
  "string \<Rightarrow> string \<Rightarrow> string \<Rightarrow> edition_row list \<Rightarrow> article_row list
     \<Rightarrow> relationship_row list \<Rightarrow> world \<Rightarrow> (error + stats) \<times> world"
where
  "persist municipality timestamp batch_id editions_rows articles_rows relationships_rows w =
     (let stats0 =
            \<lparr>st_municipality = Some municipality, st_editions = 0, st_articles = 0,
             st_relationships = 0, st_timestamp = Some timestamp,
             st_batch_id = Some batch_id\<rparr>
      in case write_rows (editions_rows \<noteq> [])
                (''gazettes/batch_'' @ timestamp @ ''.parquet'') (EditionsTable editions_rows)
                (EditionsSaved (length editions_rows)) w of
           (Inl e, w1) \<Rightarrow> (Inl e, logger ERROR (SaveFailed e) w1)
         | (Inr done1, w1) \<Rightarrow>
             let stats1 =
                   (if done1 then stats0\<lparr>st_editions := length editions_rows\<rparr> else stats0)
             in case write_rows (articles_rows \<noteq> [])
                       (''articles/batch_'' @ timestamp @ ''.parquet'')
                       (ArticlesTable articles_rows)
                       (ArticlesSaved (length articles_rows)) w1 of
                  (Inl e, w2) \<Rightarrow> (Inl e, logger ERROR (SaveFailed e) w2)
                | (Inr done2, w2) \<Rightarrow>
                    let stats2 =
                          (if done2 then stats1\<lparr>st_articles := length articles_rows\<rparr>
                           else stats1)
                    in case write_rows (relationships_rows \<noteq> [])
                              (''relationships/batch_'' @ timestamp @ ''.parquet'')
                              (RelationshipsTable relationships_rows)
                              (RelationshipsSaved (length relationships_rows)) w2 of
                         (Inl e, w3) \<Rightarrow> (Inl e, logger ERROR (SaveFailed e) w3)
                       | (Inr done3, w3) \<Rightarrow>
                           (Inr (if done3
                                 then stats2\<lparr>st_relationships := length relationships_rows\<rparr>
                                 else stats2), w3))"

definition save_editions ::
  "hashlib \<Rightarrow> gazette_edition list \<Rightarrow> save_kwargs \<Rightarrow> world \<Rightarrow> (error + stats) \<times> world"
where
  "save_editions h editions kwargs w =
     (if editions = [] then
        (Inr \<lparr>st_municipality = None, st_editions = 0, st_articles = 0, st_relationships = 0,
              st_timestamp = None, st_batch_id = None\<rparr>,
         logger WARNING NoEditionsToSave w)
      else
        let (t, w1) = now w;
            timestamp = strftime_compact t;
            batch_id =
              (case kw_batch_id kwargs of None \<Rightarrow> ''batch_'' @ timestamp | Some b \<Rightarrow> b);
            municipality = (case kw_municipality kwargs of None \<Rightarrow> [] | Some m \<Rightarrow> m)
        in case editions_loop h municipality batch_id editions ([], [], []) w1 of
             (Inl e, w2) \<Rightarrow> (Inl e, w2)
           | (Inr (editions_rows, articles_rows, relationships_rows), w2) \<Rightarrow>
               persist municipality timestamp batch_id editions_rows articles_rows
                 relationships_rows w2)"

subsection \<open>query\_articles\<close>

text \<open>Python truth of an optional string and of an optional list.\<close>

definition truthy :: "'a list option \<Rightarrow> bool" where
  "truthy x = (case x of None \<Rightarrow> False | Some v \<Rightarrow> v \<noteq> [])"

text \<open>The four clauses, with the value put between single quotes as it is.\<close>

definition municipality_clause :: "string \<Rightarrow> string" where
  "municipality_clause v = ''municipality = '' @ [CHR 0x27] @ v @ [CHR 0x27]"

definition start_date_clause :: "string \<Rightarrow> string" where
  "start_date_clause v = ''publication_date >= '' @ [CHR 0x27] @ v @ [CHR 0x27]"

definition end_date_clause :: "string \<Rightarrow> string" where
  "end_date_clause v = ''publication_date <= '' @ [CHR 0x27] @ v @ [CHR 0x27]"

definition content_type_clause :: "string list \<Rightarrow> string" where
  "content_type_clause vs =
     ''content_type IN ('' @ [CHR 0x27] @ join ([CHR 0x27] @ '', '' @ [CHR 0x27]) vs
       @ [CHR 0x27] @ '')''"

definition where_clauses ::
  "string option \<Rightarrow> string option \<Rightarrow> string option \<Rightarrow> string list option \<Rightarrow> string list"
where
  "where_clauses municipality start_date end_date content_types =
     (if truthy municipality then [municipality_clause (the municipality)] else [])
     @ (if truthy start_date then [start_date_clause (the start_date)] else [])
     @ (if truthy end_date then [end_date_clause (the end_date)] else [])
     @ (if truthy content_types then [content_type_clause (the content_types)] else [])"

definition where_sql ::
  "string option \<Rightarrow> string option \<Rightarrow> string option \<Rightarrow> string list option \<Rightarrow> string"
where
  "where_sql municipality start_date end_date content_types =
     (let cs = where_clauses municipality start_date end_date content_types
      in if cs \<noteq> [] then join '' AND '' cs else ''1=1'')"

definition limit_sql :: "int option \<Rightarrow> string" where
  "limit_sql limit =
     (case limit of
        None \<Rightarrow> []
      | Some n \<Rightarrow> if n \<noteq> 0 then ''LIMIT '' @ str_int n else [])"

text \<open>The statement of lines 341 to 346, with its line breaks and indentation.\<close>

definition query_text :: "string list \<Rightarrow> string \<Rightarrow> string \<Rightarrow> string" where
  "query_text paths wsql lsql =
     [CHR 0x0A] @ replicate 12 CHR '' '' @ ''SELECT * FROM read_parquet(['' @ [CHR 0x27]
       @ join ([CHR 0x27] @ '', '' @ [CHR 0x27]) paths @ [CHR 0x27] @ ''])'' @ [CHR 0x0A]
       @ replicate 12 CHR '' '' @ ''WHERE '' @ wsql @ [CHR 0x0A]
       @ replicate 12 CHR '' '' @ lsql @ [CHR 0x0A]
       @ replicate 8 CHR '' ''"

fun get_uris :: "string list \<Rightarrow> backend \<Rightarrow> string list \<times> backend" where
  "get_uris [] b = ([], b)"
| "get_uris (f # fs) b =
     (let (u, b1) = get_uri b f; (us, b2) = get_uris fs b1 in (u # us, b2))"

text \<open>
  The result of a query: \<^verbatim>\<open>pa.table({})\<close>, or what the query engine returns for
  the statement. The engine is a parameter: \<open>execute q\<close> stands for
  \<^verbatim>\<open>self._duck_conn.execute(q).fetch_arrow_table()\<close>.
\<close>

datatype 't query_result = EmptyTable | Fetched 't

definition duckdb_disabled :: string where
  "duckdb_disabled = ''DuckDB n'' @ [CHR 0xE3] @ ''o habilitado''"

definition query_articles ::
  "parquet_storage \<Rightarrow> (string \<Rightarrow> error + 't) \<Rightarrow> string option \<Rightarrow> string option
     \<Rightarrow> string option \<Rightarrow> string list option \<Rightarrow> int option \<Rightarrow> world
     \<Rightarrow> (error + 't query_result) \<times> world"
where
  "query_articles self execute municipality start_date end_date content_types limit w =
     (if \<not> enable_duckdb self then (Inl (RuntimeError duckdb_disabled), w)
      else
        let (fs, b1) = list_files (backend w) ''articles'' (Some ''.parquet'');
            w1 = w\<lparr>backend := b1\<rparr>
        in if fs = [] then (Inr EmptyTable, logger WARNING NoArticleFiles w1)
           else
             let (paths, b2) = get_uris fs (backend w1);
                 w2 = w1\<lparr>backend := b2\<rparr>;
                 query =
                   query_text paths (where_sql municipality start_date end_date content_types)
                     (limit_sql limit)
             in (case execute query of
                   Inl e \<Rightarrow> (Inl e, w2)
                 | Inr r \<Rightarrow> (Inr (Fetched r), w2)))"

section \<open>Notions of the specification\<close>

text \<open>
  The placement invariant of an article row: the body is either inline or in the
  blob store. Exactly one of "\<open>inline_text\<close> is not null" and "\<open>content_hash\<close> and
  \<open>content_path\<close> are both not null" holds.
\<close>

definition placed_once :: "article_row \<Rightarrow> bool" where
  "placed_once r =
     ((ar_inline_text r \<noteq> None) \<noteq> (ar_content_hash r \<noteq> None \<and> ar_content_path r \<noteq> None))"

text \<open>
  The predicate in the specification's words: the conjunction of the supplied
  filters, which are equality on \<open>municipality\<close>, an inclusive range on
  \<open>publication_date\<close> (from the start date, until the end date) and set membership
  on \<open>content_type\<close>; a filter is supplied when its argument is given (is not
  \<^verbatim>\<open>None\<close>), and the predicate is always true when none is. The filters are written
  in SQL with their values as quoted literals.
\<close>

datatype query_filter =
    MunicipalityIs string
  | PublishedFrom string
  | PublishedUntil string
  | ContentTypeIn "string list"

definition sql_literal :: "string \<Rightarrow> string" where
  "sql_literal v = CHR 0x27 # v @ [CHR 0x27]"

fun commas :: "string list \<Rightarrow> string" where
  "commas [] = []"
| "commas [v] = v"
| "commas (v # vs) = v @ CHR '','' # CHR '' '' # commas vs"

fun filter_sql :: "query_filter \<Rightarrow> string" where
  "filter_sql (MunicipalityIs v) = ''municipality = '' @ sql_literal v"
| "filter_sql (PublishedFrom v) = ''publication_date >= '' @ sql_literal v"
| "filter_sql (PublishedUntil v) = ''publication_date <= '' @ sql_literal v"
| "filter_sql (ContentTypeIn vs) = ''content_type IN ('' @ commas (map sql_literal vs) @ '')''"

fun conjunction_sql :: "query_filter list \<Rightarrow> string" where
  "conjunction_sql [] = ''1=1''"
| "conjunction_sql [f] = filter_sql f"
| "conjunction_sql (f # fs) = filter_sql f @ '' AND '' @ conjunction_sql fs"

definition supplied_filters ::
  "string option \<Rightarrow> string option \<Rightarrow> string option \<Rightarrow> string list option \<Rightarrow> query_filter list"
where
  "supplied_filters municipality start_date end_date content_types =
     (case municipality of None \<Rightarrow> [] | Some v \<Rightarrow> [MunicipalityIs v])
     @ (case start_date of None \<Rightarrow> [] | Some v \<Rightarrow> [PublishedFrom v])
     @ (case end_date of None \<Rightarrow> [] | Some v \<Rightarrow> [PublishedUntil v])
     @ (case content_types of None \<Rightarrow> [] | Some vs \<Rightarrow> [ContentTypeIn vs])"

definition supplied_where_sql ::
  "string option \<Rightarrow> string option \<Rightarrow> string option \<Rightarrow> string list option \<Rightarrow> string"
where
  "supplied_where_sql municipality start_date end_date content_types =
     conjunction_sql (supplied_filters municipality start_date end_date content_types)"

text \<open>
  The body of an article as text (no text when the bytes are no UTF-8) and as bytes
  (none when a text body has no UTF-8 encoding).
\<close>

definition body_text :: "raw_content \<Rightarrow> unicode option" where
  "body_text rc = (case rc of RawNone \<Rightarrow> Some [] | RawBytes b \<Rightarrow> utf8_decode b | RawStr t \<Rightarrow> Some t)"

definition body_bytes :: "raw_content \<Rightarrow> byte list option" where
  "body_bytes rc = (case rc of RawNone \<Rightarrow> Some [] | RawBytes b \<Rightarrow> Some b | RawStr t \<Rightarrow> utf8_encode t)"

text \<open>
  The two placements of a body by a call that takes the state \<open>w\<close> to \<open>w'\<close>. Inline:
  the row holds the text and the blob fields are null. Blob: the row holds the
  digest and the path of the body and \<open>inline_text\<close> is null; the blob store was
  asked for the path and the path is in the store after the call; and when the path
  was not in the store before the call, the file there holds bytes of this digest
  path (the body, or a body of the same batch with the same digest).
\<close>

definition stored_inline :: "article_row \<Rightarrow> unicode \<Rightarrow> bool" where
  "stored_inline r t =
     (ar_inline_text r = Some t \<and> ar_content_hash r = None \<and> ar_content_path r = None)"



text \<open>The row of an article without a body: the empty string inline, nothing else.\<close>

definition missing_body_row :: "article_row \<Rightarrow> bool" where
  "missing_body_row r =
     (ar_inline_text r = Some [] \<and> ar_content_size r = 0
      \<and> ar_content_hash r = None \<and> ar_content_path r = None)"

text \<open>
  What the loop body establishes for an article and its row, in terms of the
  backend after it: the size, and the placement with the blob in the store.
\<close>

definition blob_row :: "hashlib \<Rightarrow> backend \<Rightarrow> article_row \<Rightarrow> byte list \<Rightarrow> bool" where
  "blob_row h b r bs =
     (ar_inline_text r = None
      \<and> ar_content_hash r = Some (sha256_hexdigest h bs)
      \<and> ar_content_path r = Some (blob_path (sha256_hexdigest h bs))
      \<and> Exists (blob_path (sha256_hexdigest h bs)) \<in> set (calls b)
      \<and> map_of (files b) (blob_path (sha256_hexdigest h bs)) \<noteq> None)"

definition row_of_article :: "hashlib \<Rightarrow> backend \<Rightarrow> article \<Rightarrow> article_row \<Rightarrow> bool" where
  "row_of_article h b a r =
     (case body_bytes (raw_content (article_content a)) of
        None \<Rightarrow> False
      | Some bs \<Rightarrow>
          ar_content_size r = length bs
          \<and> (case body_text (raw_content (article_content a)) of
                Some t \<Rightarrow> if length t \<le> 2000 then stored_inline r t else blob_row h b r bs
              | None \<Rightarrow> blob_row h b r bs))"

text \<open>
  How the code changes a backend: the failing paths stay, calls are only added,
  files are never removed, a file at a blob path keeps its content, and a new file
  at a blob path holds bytes of that digest path.
\<close>

definition evolves :: "hashlib \<Rightarrow> backend \<Rightarrow> backend \<Rightarrow> bool" where
  "evolves h b b' =
     (write_fails b' = write_fails b
      \<and> set (calls b) \<subseteq> set (calls b')
      \<and> (\<forall>p v. map_of (files b) p = Some v \<longrightarrow> map_of (files b') p \<noteq> None)
      \<and> (\<forall>x v. map_of (files b) (blob_path x) = Some v \<longrightarrow>
             map_of (files b') (blob_path x) = Some v)
      \<and> (\<forall>x v. map_of (files b) (blob_path x) = None \<longrightarrow>
             map_of (files b') (blob_path x) = Some v \<longrightarrow>
             (\<exists>bs. v = BytesFile bs \<and> blob_path (sha256_hexdigest h bs) = blob_path x)))"

text \<open>A filter that is given and not empty; an empty string or list counts as not given.\<close>

definition given :: "'a list option \<Rightarrow> 'a list option" where
  "given x = (if x = Some [] then None else x)"

text \<open>The number of \<^verbatim>\<open>write_bytes\<close> calls that a backend has received.\<close>

definition is_write_bytes :: "backend_call \<Rightarrow> bool" where
  "is_write_bytes c = (case c of WriteBytes _ \<Rightarrow> True | _ \<Rightarrow> False)"

definition blob_writes :: "world \<Rightarrow> nat" where
  "blob_writes w = length (filter is_write_bytes (calls (backend w)))"

section \<open>Example inputs\<close>

text \<open>
  A stand-in for the two digests (the decimal length of the input, padded to the
  width of the real digest), a clock that starts on 2024-03-05 at noon and advances
  by a second per call, and an empty store under \<^verbatim>\<open>data/raw\<close> whose writes fail at
  the paths \<open>bad\<close>.
\<close>

definition example_hashlib :: hashlib where
  "example_hashlib =
     \<lparr>md5_hexdigest = (\<lambda>s. zero_pad 32 (str_nat (length s))),
      sha256_hexdigest = (\<lambda>b. zero_pad 64 (str_nat (length b)))\<rparr>"

definition example_clock :: "nat \<Rightarrow> datetime" where
  "example_clock k =
     \<lparr>dt_year = 2024, dt_month = 3, dt_day = 5, dt_hour = 12, dt_minute = 0,
      dt_second = int (k mod 60), dt_microsecond = 0\<rparr>"

definition example_world :: "string list \<Rightarrow> world" where
  "example_world bad =
     \<lparr>backend = \<lparr>base_path = ''data/raw'', files = [], write_fails = (\<lambda>p. p \<in> set bad),
                 calls = []\<rparr>,
      clock = example_clock, ticks = 0, log = []\<rparr>"

definition example_metadata :: "string \<Rightarrow> edition_metadata" where
  "example_metadata pd =
     \<lparr>edition_id = ''e1'', publication_date = pd, edition_number = 1, supplement = False,
      edition_type_id = 1, edition_type_name = ''ordinary'', pdf_url = ''http://x/e1.pdf''\<rparr>"

definition example_article :: "raw_content \<Rightarrow> article" where
  "example_article rc =
     \<lparr>article_metadata =
        \<lparr>article_id = ''a1'', article_edition_id = ''e1'', title = Some ''t'',
         hierarchy_path = None, article_identifier = None, protocol = None\<rparr>,
      article_content = \<lparr>raw_content = rc, content_type = ContentType ''text''\<rparr>\<rparr>"

definition no_kwargs :: save_kwargs where
  "no_kwargs = \<lparr>kw_municipality = None, kw_batch_id = None\<rparr>"

text \<open>The example store after one batch with an (empty) article table.\<close>

definition example_article_store :: world where
  "example_article_store =
     (example_world [])\<lparr>backend := (backend (example_world []))
        \<lparr>files := [(''articles/batch_20240305_120000.parquet'', ParquetFile (ArticlesTable []))]\<rparr>\<rparr>"



section \<open>Partition keys\<close>

lemma str_nat_one_digit: "n < 10 \<Longrightarrow> str_nat n = [digit_char n]"
  by (subst str_nat.simps) simp

lemma str_nat_two_digits:
  "10 \<le> n \<Longrightarrow> n < 100 \<Longrightarrow> str_nat n = [digit_char (n div 10), digit_char (n mod 10)]"
  by (subst str_nat.simps) (simp add: str_nat_one_digit)

lemma str_nat_three_digits: "100 \<le> n \<Longrightarrow> n < 1000 \<Longrightarrow> length (str_nat n) = 3"
  by (subst str_nat.simps) (simp add: str_nat_two_digits)

lemma str_nat_four_digits: "1000 \<le> n \<Longrightarrow> n < 10000 \<Longrightarrow> length (str_nat n) = 4"
  by (subst str_nat.simps) (simp add: str_nat_three_digits)

lemma digit_char_0: "digit_char 0 = CHR ''0''"
  by (simp add: digit_char_def)

lemma fmt_02d_two_digits:
  assumes "0 \<le> i" and "i < 100"
  shows "fmt_0wd 2 i = [digit_char (nat i div 10), digit_char (nat i mod 10)]"
proof (cases "nat i < 10")
  case True
  then show ?thesis using assms
    by (simp add: fmt_0wd_def zero_pad_def str_nat_one_digit digit_char_0)
next
  case False
  then show ?thesis using assms
    by (simp add: fmt_0wd_def zero_pad_def str_nat_two_digits)
qed

lemma days_in_month_le: "days_in_month y m \<le> 31"
  by (simp add: days_in_month_def)

text \<open>
  C9. For every calendar date \<open>d\<close>, \<open>date_partition\<close> returns \<open>year=Y\<close> for the level
  "year", \<open>year=Y/month=MM\<close> for "month" and \<open>year=Y/month=MM/day=DD\<close> for "day", which
  is also the result when the level is left out. \<open>MM\<close> and \<open>DD\<close> are the month and
  the day as exactly two decimal digits (a leading 0 below ten); \<open>Y\<close> is the year
  in decimal, which has four digits from the year 1000 on. In particular the
  partition of 2024-03-05 at level "day" is \<open>year=2024/month=03/day=05\<close>.
\<close>

theorem date_partition_formats:
  assumes "valid_date d"
  shows "date_partition d ''year'' = ''year='' @ str_int (d_year d)
    \<and> date_partition d ''month'' =
        ''year='' @ str_int (d_year d) @ ''/month=''
          @ [digit_char (nat (d_month d) div 10), digit_char (nat (d_month d) mod 10)]
    \<and> date_partition d ''day'' =
        ''year='' @ str_int (d_year d) @ ''/month=''
          @ [digit_char (nat (d_month d) div 10), digit_char (nat (d_month d) mod 10)]
          @ ''/day='' @ [digit_char (nat (d_day d) div 10), digit_char (nat (d_day d) mod 10)]
    \<and> date_partition_default d = date_partition d ''day''
    \<and> str_int (d_year d) = str_nat (nat (d_year d))
    \<and> (1000 \<le> d_year d \<longrightarrow> length (str_int (d_year d)) = 4)
    \<and> date_partition \<lparr>d_year = 2024, d_month = 3, d_day = 5\<rparr> ''day''
        = ''year=2024/month=03/day=05''"
proof -
  from assms have y: "1 \<le> d_year d" "d_year d \<le> 9999"
    and m: "0 \<le> d_month d" "d_month d < 100"
    and dd: "0 \<le> d_day d" "d_day d < 100"
    using days_in_month_le [of "d_year d" "d_month d"]
    by (auto simp: valid_date_def valid_ymd_def)
  have year: "str_int (d_year d) = str_nat (nat (d_year d))"
    using y by (simp add: str_int_def)
  have four: "1000 \<le> d_year d \<longrightarrow> length (str_int (d_year d)) = 4"
    using y by (auto simp: year intro!: str_nat_four_digits)
  have ex: "date_partition \<lparr>d_year = 2024, d_month = 3, d_day = 5\<rparr> ''day''
        = ''year=2024/month=03/day=05''"
    by (simp add: date_partition_def str_int_def fmt_0wd_def zero_pad_def str_nat.simps
        digit_char_def)
  show ?thesis
    using year four ex
    by (simp add: date_partition_def date_partition_default_def
        fmt_02d_two_digits [OF m] fmt_02d_two_digits [OF dd])
qed

theorem date_partition_formats_witness:
  "valid_date \<lparr>d_year = 2024, d_month = 12, d_day = 31\<rparr>
   \<and> date_partition \<lparr>d_year = 2024, d_month = 12, d_day = 31\<rparr> ''year'' = ''year=2024''
   \<and> date_partition \<lparr>d_year = 2024, d_month = 12, d_day = 31\<rparr> ''month'' = ''year=2024/month=12''
   \<and> date_partition_default \<lparr>d_year = 2024, d_month = 12, d_day = 31\<rparr>
       = ''year=2024/month=12/day=31''"
proof -
  have v: "valid_date \<lparr>d_year = 2024, d_month = 12, d_day = 31\<rparr>"
    by (simp add: valid_date_def valid_ymd_def days_in_month_def)
  have s: "str_int 2024 = ''2024''"
    by (simp add: str_int_def str_nat.simps digit_char_def)
  show ?thesis
    using v date_partition_formats [OF v] by (simp add: s digit_char_def)
qed

section \<open>Saving an empty batch\<close>

text \<open>
  C8. \<open>save_editions\<close> on the empty list of editions returns the counts
  \<open>editions = 0, articles = 0, relationships = 0\<close> (and no other key), and the
  backend is left as it was: no call of any backend method is made, so no write, no
  existence check and no read. The only effect is the logged warning.
\<close>

theorem save_editions_empty:
  "save_editions h [] kwargs w =
     (Inr \<lparr>st_municipality = None, st_editions = 0, st_articles = 0, st_relationships = 0,
           st_timestamp = None, st_batch_id = None\<rparr>,
      w\<lparr>log := log w @ [(WARNING, NoEditionsToSave)]\<rparr>)
   \<and> backend (snd (save_editions h [] kwargs w)) = backend w
   \<and> calls (backend (snd (save_editions h [] kwargs w))) = calls (backend w)
   \<and> files (backend (snd (save_editions h [] kwargs w))) = files (backend w)
   \<and> ticks (snd (save_editions h [] kwargs w)) = ticks w"
  by (simp add: save_editions_def logger_def)

section \<open>Queries without an engine or without files\<close>

text \<open>
  C7. When the query engine is not enabled, \<open>query_articles\<close> raises at once (the
  \<^verbatim>\<open>RuntimeError\<close> that reports the disabled engine), before any backend call and
  whatever the filters are. When the engine is enabled and the backend lists no
  article table file, it returns the empty table and raises nothing.
\<close>

theorem query_articles_disabled_or_empty:
  "(\<not> enable_duckdb self \<longrightarrow>
      query_articles self execute municipality start_date end_date content_types limit w
        = (Inl (RuntimeError duckdb_disabled), w))
   \<and> (enable_duckdb self \<and> fst (list_files (backend w) ''articles'' (Some ''.parquet'')) = [] \<longrightarrow>
        fst (query_articles self execute municipality start_date end_date content_types limit w)
          = Inr EmptyTable)"
  by (simp add: query_articles_def split_def Let_def)

lemma list_files_empty_store: "fst (list_files (backend (example_world bad)) d s) = []"
  by (simp add: list_files_def example_world_def)

theorem query_articles_disabled_or_empty_witness:
  "query_articles \<lparr>partition_by = ''day'', enable_duckdb = False\<rparr> (\<lambda>q. Inr q)
      (Some ''sp'') None None None None (example_world [])
     = (Inl (RuntimeError duckdb_disabled), example_world [])
   \<and> fst (query_articles \<lparr>partition_by = ''day'', enable_duckdb = True\<rparr> (\<lambda>q. Inr q)
      (Some ''sp'') None None None None (example_world []))
     = (Inr EmptyTable :: error + string query_result)"
  using query_articles_disabled_or_empty
      [where self = "\<lparr>partition_by = ''day'', enable_duckdb = False\<rparr>"
         and execute = "\<lambda>q. Inr q :: error + string" and municipality = "Some ''sp''"
         and start_date = None and end_date = None and content_types = None and limit = None
         and w = "example_world []"]
    query_articles_disabled_or_empty
      [where self = "\<lparr>partition_by = ''day'', enable_duckdb = True\<rparr>"
         and execute = "\<lambda>q. Inr q :: error + string" and municipality = "Some ''sp''"
         and start_date = None and end_date = None and content_types = None and limit = None
         and w = "example_world []"]
  by (simp add: list_files_empty_store)

section \<open>Articles without a body\<close>

lemma normalize_none: "normalize_content RawNone = Inr (Some [], [])"
  by (simp add: normalize_content_def utf8_encode_def)

lemma process_article_missing_body:
  assumes "raw_content (article_content art) = RawNone"
  shows "\<exists>arow rrow w'.
           process_article h municipality batch_id meta edition_hash pub_date_obj pub_parts art w
             = (Inr (arow, rrow), w')
           \<and> ar_inline_text arow = Some []
           \<and> ar_content_size arow = 0
           \<and> ar_content_hash arow = None
           \<and> ar_content_path arow = None
           \<and> backend w' = backend w"
  using assms
  by (simp add: process_article_def normalize_none place_content_def
      CONTENT_INLINE_THRESHOLD_def now_def Let_def split_def)

section \<open>The content-addressed blob store\<close>

lemma exists_after_write_bytes:
  "write_bytes b path data meta = (Inr p, b') \<Longrightarrow> map_of (files b') path \<noteq> None"
  by (auto simp: write_bytes_def Let_def called_def update_conv' split: if_splits option.splits)

lemma blob_put_absent:
  assumes "map_of (files (backend w)) (blob_path (sha256_hexdigest h b)) = None"
    and "\<not> write_fails (backend w) (blob_path (sha256_hexdigest h b))"
  shows "write_content_blob h (PyBytes b) w =
     (Inr \<lparr>content_hash = sha256_hexdigest h b,
           content_path = blob_path (sha256_hexdigest h b),
           content_size = length b\<rparr>,
      w\<lparr>backend := (backend w)\<lparr>
           calls := calls (backend w) @ [Exists (blob_path (sha256_hexdigest h b)),
                                          WriteBytes (blob_path (sha256_hexdigest h b))],
           files := AList.update (blob_path (sha256_hexdigest h b) @ ''.meta.json'')
                      (MetaJson \<lparr>bm_content_hash = sha256_hexdigest h b,
                                 bm_content_size = length b,
                                 bm_created_at = isoformat (clock w (ticks w))\<rparr>)
                      (AList.update (blob_path (sha256_hexdigest h b)) (BytesFile b)
                         (files (backend w)))\<rparr>,
         ticks := Suc (ticks w)\<rparr>)"
  using assms
  by (simp add: write_content_blob_def exists_def write_bytes_def called_def now_def Let_def)

lemma blob_put_present:
  assumes "map_of (files (backend w)) (blob_path (sha256_hexdigest h b)) \<noteq> None"
  shows "write_content_blob h (PyBytes b) w =
     (Inr \<lparr>content_hash = sha256_hexdigest h b,
           content_path = blob_path (sha256_hexdigest h b),
           content_size = length b\<rparr>,
      w\<lparr>backend := (backend w)\<lparr>
           calls := calls (backend w) @ [Exists (blob_path (sha256_hexdigest h b))]\<rparr>\<rparr>)"
proof -
  from assms obtain y where "map_of (files (backend w)) (blob_path (sha256_hexdigest h b)) = Some y"
    by auto
  then show ?thesis
    by (simp add: write_content_blob_def exists_def called_def Let_def)
qed

lemma blob_put_fails:
  assumes "map_of (files (backend w)) (blob_path (sha256_hexdigest h b)) = None"
    and "write_fails (backend w) (blob_path (sha256_hexdigest h b))"
  shows "write_content_blob h (PyBytes b) w =
     (Inl (OSError (blob_path (sha256_hexdigest h b))),
      w\<lparr>backend := (backend w)\<lparr>
           calls := calls (backend w) @ [Exists (blob_path (sha256_hexdigest h b)),
                                          WriteBytes (blob_path (sha256_hexdigest h b))]\<rparr>,
         ticks := Suc (ticks w)\<rparr>)"
  using assms
  by (simp add: write_content_blob_def exists_def write_bytes_def called_def now_def Let_def)

lemma blob_path_eq:
  "''content/'' @ take 2 x @ ''/'' @ take 2 (drop 2 x) @ ''/'' @ x @ ''.bin'' = blob_path x"
  by (simp add: blob_path_def CONTENT_DIRNAME_def)

lemma map_of_meta_update:
  "map_of (AList.update (p @ ''.meta.json'') v fs) p = map_of fs p"
  by (simp add: update_conv')

text \<open>
  C3. For every byte payload \<open>b\<close> whose write the file system does not refuse,
  putting \<open>b\<close> through the blob store twice returns the same descriptor both times:
  the digest of \<open>b\<close>, the path \<open>content/<hash[0:2]>/<hash[2:4]>/<hash>.bin\<close> built
  from the digest alone, and the size of \<open>b\<close>. The second call finds the path
  present and is a no-op: it makes the existence check and nothing else, no write
  call and no change of any file. Over the two calls the backend receives exactly
  one write when the blob was not in the store before the first call, as in a
  fresh store (and none when it was there already).
\<close>

theorem blob_put_twice:
  assumes ok: "\<not> write_fails (backend w) (blob_path (sha256_hexdigest h b))"
  shows "\<exists>w1 w2.
     write_content_blob h (PyBytes b) w =
       (Inr \<lparr>content_hash = sha256_hexdigest h b,
             content_path = ''content/'' @ take 2 (sha256_hexdigest h b) @ ''/''
               @ take 2 (drop 2 (sha256_hexdigest h b)) @ ''/''
               @ sha256_hexdigest h b @ ''.bin'',
             content_size = length b\<rparr>, w1)
     \<and> write_content_blob h (PyBytes b) w1 = (fst (write_content_blob h (PyBytes b) w), w2)
     \<and> files (backend w2) = files (backend w1)
     \<and> blob_writes w2 = blob_writes w1
     \<and> calls (backend w2) = calls (backend w1) @ [Exists (blob_path (sha256_hexdigest h b))]
     \<and> blob_writes w2 =
         blob_writes w
         + (if map_of (files (backend w)) (blob_path (sha256_hexdigest h b)) = None then 1 else 0)"
proof (cases "map_of (files (backend w)) (blob_path (sha256_hexdigest h b)) = None")
  case True
  note first = blob_put_absent [OF True ok]
  let ?w1 = "snd (write_content_blob h (PyBytes b) w)"
  have present: "map_of (files (backend ?w1)) (blob_path (sha256_hexdigest h b)) \<noteq> None"
    by (simp add: first update_conv')
  note second = blob_put_present [OF present]
  show ?thesis
    unfolding blob_path_eq
    apply (rule exI [of _ ?w1])
    apply (rule exI [of _ "snd (write_content_blob h (PyBytes b) ?w1)"])
    apply (simp add: second)
    apply (simp add: first True blob_writes_def is_write_bytes_def)
    done
next
  case False
  note first = blob_put_present [OF False]
  let ?w1 = "snd (write_content_blob h (PyBytes b) w)"
  have present: "map_of (files (backend ?w1)) (blob_path (sha256_hexdigest h b)) \<noteq> None"
    using False by (simp add: first)
  note second = blob_put_present [OF present]
  show ?thesis
    unfolding blob_path_eq
    apply (rule exI [of _ ?w1])
    apply (rule exI [of _ "snd (write_content_blob h (PyBytes b) ?w1)"])
    apply (simp add: second)
    apply (simp add: first False blob_writes_def is_write_bytes_def)
    done
qed

lemma example_digest:
  "sha256_hexdigest example_hashlib [0x61, 0x62] = ''0000000000000000000000000000000000000000000000000000000000000002''"
  by code_simp

theorem blob_put_twice_witness:
  "\<exists>w1 w2.
     write_content_blob example_hashlib (PyBytes [0x61, 0x62]) (example_world []) =
       (Inr \<lparr>content_hash = ''0000000000000000000000000000000000000000000000000000000000000002'',
             content_path = ''content/00/00/0000000000000000000000000000000000000000000000000000000000000002.bin'',
             content_size = 2\<rparr>, w1)
     \<and> write_content_blob example_hashlib (PyBytes [0x61, 0x62]) w1 =
       (Inr \<lparr>content_hash = ''0000000000000000000000000000000000000000000000000000000000000002'',
             content_path = ''content/00/00/0000000000000000000000000000000000000000000000000000000000000002.bin'',
             content_size = 2\<rparr>, w2)
     \<and> files (backend w2) = files (backend w1)
     \<and> blob_writes w2 = 1"
proof -
  have ok: "\<not> write_fails (backend (example_world []))
              (blob_path (sha256_hexdigest example_hashlib [0x61, 0x62]))"
    by (simp add: example_world_def)
  have absent: "map_of (files (backend (example_world [])))
              (blob_path (sha256_hexdigest example_hashlib [0x61, 0x62])) = None"
    by (simp add: example_world_def)
  have zero: "blob_writes (example_world []) = 0"
    by (simp add: blob_writes_def example_world_def)
  from blob_put_twice [OF ok] obtain w1 w2 where
    "write_content_blob example_hashlib (PyBytes [0x61, 0x62]) (example_world []) =
       (Inr \<lparr>content_hash = sha256_hexdigest example_hashlib [0x61, 0x62],
             content_path = ''content/'' @ take 2 (sha256_hexdigest example_hashlib [0x61, 0x62])
               @ ''/'' @ take 2 (drop 2 (sha256_hexdigest example_hashlib [0x61, 0x62])) @ ''/''
               @ sha256_hexdigest example_hashlib [0x61, 0x62] @ ''.bin'',
             content_size = length [0x61 :: byte, 0x62]\<rparr>, w1)"
    and "write_content_blob example_hashlib (PyBytes [0x61, 0x62]) w1 =
       (fst (write_content_blob example_hashlib (PyBytes [0x61, 0x62]) (example_world [])), w2)"
    and "files (backend w2) = files (backend w1)"
    and "blob_writes w2 =
         blob_writes (example_world [])
         + (if map_of (files (backend (example_world [])))
                 (blob_path (sha256_hexdigest example_hashlib [0x61, 0x62])) = None
            then 1 else 0)"
    by blast
  then show ?thesis
    unfolding zero example_digest by (simp add: example_world_def)
qed

section \<open>Inline or blob\<close>

lemma normalize_bytes: "normalize_content (RawBytes b) = Inr (utf8_decode b, b)"
  by (simp add: normalize_content_def)

lemma normalize_str:
  "normalize_content (RawStr t) =
     (case utf8_encode t of None \<Rightarrow> Inl UnicodeEncodeError | Some bs \<Rightarrow> Inr (Some t, bs))"
  by (simp add: normalize_content_def)

lemma normalize_content_body:
  "normalize_content rc = Inr (rt, bs) \<Longrightarrow> rt = body_text rc \<and> body_bytes rc = Some bs"
  by (cases rc)
    (auto simp: normalize_content_def body_text_def body_bytes_def utf8_encode_def
      split: option.splits)

lemma place_content_inline:
  "length t \<le> 2000 \<Longrightarrow>
   place_content h (Some t) bs w = (Inr ((None, None, length bs), Some t), w)"
  by (simp add: place_content_def CONTENT_INLINE_THRESHOLD_def)

lemma place_content_blob:
  "rt = None \<or> 2000 < length (the rt) \<Longrightarrow>
   place_content h rt bs w =
     (case write_content_blob h (PyBytes bs) w of
        (Inl e, w1) \<Rightarrow> (Inl e, w1)
      | (Inr blob, w1) \<Rightarrow>
          (Inr ((Some (content_hash blob), Some (content_path blob), content_size blob),
                None), w1))"
  by (auto simp: place_content_def CONTENT_INLINE_THRESHOLD_def)

lemma process_article_row:
  assumes "process_article h mun bid meta eh pd pp art w = (Inr (arow, rrow), w')"
  shows "\<exists>rt bs ch cp cs inl w1.
           normalize_content (raw_content (article_content art)) = Inr (rt, bs)
           \<and> place_content h rt bs w = (Inr ((ch, cp, cs), inl), w1)
           \<and> ar_inline_text arow = inl \<and> ar_content_hash arow = ch
           \<and> ar_content_path arow = cp \<and> ar_content_size arow = cs
           \<and> backend w' = backend w1"
proof (cases "normalize_content (raw_content (article_content art))")
  case (Inl e)
  with assms show ?thesis by (simp add: process_article_def)
next
  case (Inr nb)
  obtain rt bs where nb: "nb = (rt, bs)" by (cases nb)
  obtain res w1 where pc: "place_content h rt bs w = (res, w1)"
    by (cases "place_content h rt bs w")
  show ?thesis
  proof (cases res)
    case (Inl e)
    with assms Inr nb pc show ?thesis by (simp add: process_article_def)
  next
    case r: (Inr v)
    obtain ch cp cs inl where v: "v = ((ch, cp, cs), inl)" by (cases v) auto
    from assms have "process_article h mun bid meta eh pd pp art w = (Inr (arow, rrow), w')" .
    then have "arow = fst (projr (fst (process_article h mun bid meta eh pd pp art w)))"
      and "w' = snd (process_article h mun bid meta eh pd pp art w)"
      by simp_all
    then show ?thesis
      by (simp add: process_article_def Inr nb pc r v Let_def split_def now_def)
  qed
qed

lemma write_content_blob_result:
  assumes "write_content_blob h (PyBytes bs) w = (Inr blob, w1)"
  shows "blob = \<lparr>content_hash = sha256_hexdigest h bs,
                 content_path = blob_path (sha256_hexdigest h bs),
                 content_size = length bs\<rparr>
    \<and> Exists (blob_path (sha256_hexdigest h bs)) \<in> set (calls (backend w1))
    \<and> map_of (files (backend w1)) (blob_path (sha256_hexdigest h bs)) \<noteq> None
    \<and> (map_of (files (backend w)) (blob_path (sha256_hexdigest h bs)) = None \<longrightarrow>
         map_of (files (backend w1)) (blob_path (sha256_hexdigest h bs)) = Some (BytesFile bs))"
proof (cases "map_of (files (backend w)) (blob_path (sha256_hexdigest h bs)) = None")
  case absent: True
  show ?thesis
  proof (cases "write_fails (backend w) (blob_path (sha256_hexdigest h bs))")
    case True
    from assms blob_put_fails [OF absent True] show ?thesis by simp
  next
    case False
    from assms blob_put_absent [OF absent False] show ?thesis
      by (auto simp: update_conv')
  qed
next
  case False
  from assms blob_put_present [OF False] False show ?thesis by auto
qed

lemma process_article_returns:
  assumes "normalize_content (raw_content (article_content art)) = Inr (rt, bs)"
    and "place_content h rt bs w = (Inr v, w1)"
  shows "\<exists>arow rrow w'. process_article h mun bid meta eh pd pp art w = (Inr (arow, rrow), w')"
  using assms by (simp add: process_article_def split_def Let_def)

lemma process_article_bytes_returns:
  assumes "raw_content (article_content art) = RawBytes b"
    and "\<not> write_fails (backend w) (blob_path (sha256_hexdigest h b))"
  shows "\<exists>arow rrow w'. process_article h mun bid meta eh pd pp art w = (Inr (arow, rrow), w')"
proof -
  have n: "normalize_content (raw_content (article_content art)) = Inr (utf8_decode b, b)"
    using assms(1) by (simp add: normalize_bytes)
  have "\<exists>v w1. place_content h (utf8_decode b) b w = (Inr v, w1)"
  proof (cases "utf8_decode b = None \<or> 2000 < length (the (utf8_decode b))")
    case True
    show ?thesis
    proof (cases "map_of (files (backend w)) (blob_path (sha256_hexdigest h b)) = None")
      case absent: True
      show ?thesis
        unfolding place_content_blob [OF True] blob_put_absent [OF absent assms(2)] by simp
    next
      case False
      show ?thesis
        unfolding place_content_blob [OF True] blob_put_present [OF False] by simp
    qed
  next
    case False
    then obtain t where t: "utf8_decode b = Some t" "length t \<le> 2000" by auto
    show ?thesis unfolding t place_content_inline [OF t(2)] by simp
  qed
  then obtain v w1 where "place_content h (utf8_decode b) b w = (Inr v, w1)" by blast
  from process_article_returns [OF n this] show ?thesis .
qed

lemma utf8_dec_e_acute: "utf8_dec (concat (replicate n [0xC3, 0xA9])) = Some (replicate n 0xE9)"
  by (induction n) (simp_all add: utf8_next_def is_cont_def)

lemma utf8_decode_e_acute:
  "utf8_decode (concat (replicate n [0xC3, 0xA9])) = Some (replicate n 0xE9)"
  by (simp add: utf8_decode_def map_concat utf8_dec_e_acute)

lemma boundary_2001_is_blob:
  "\<exists>arow rrow w'.
     process_article example_hashlib [] ''b1'' (example_metadata ''2024-03-05'') ''h''
         \<lparr>d_year = 2024, d_month = 3, d_day = 5\<rparr> \<lparr>year = 2024, month = 3, day = 5\<rparr>
         (example_article (RawBytes (concat (replicate 2001 [0xC3, 0xA9])))) (example_world [])
       = (Inr (arow, rrow), w')
     \<and> ar_inline_text arow = None
     \<and> ar_content_hash arow \<noteq> None \<and> ar_content_path arow \<noteq> None
     \<and> blob_writes w' = 1"
proof -
  let ?b = "concat (replicate 2001 [0xC3 :: byte, 0xA9])"
  let ?art = "example_article (RawBytes ?b)"
  have rc: "raw_content (article_content ?art) = RawBytes ?b"
    by (simp add: example_article_def)
  have ok: "\<not> write_fails (backend (example_world [])) (blob_path (sha256_hexdigest example_hashlib ?b))"
    by (simp add: example_world_def)
  have absent: "map_of (files (backend (example_world []))) (blob_path (sha256_hexdigest example_hashlib ?b)) = None"
    by (simp add: example_world_def)
  have blob: "utf8_decode ?b = None \<or> 2000 < length (the (utf8_decode ?b))"
    by (simp add: utf8_decode_e_acute)
  from process_article_bytes_returns [OF rc ok] obtain arow rrow w' where
    run: "process_article example_hashlib [] ''b1'' (example_metadata ''2024-03-05'') ''h''
         \<lparr>d_year = 2024, d_month = 3, d_day = 5\<rparr> \<lparr>year = 2024, month = 3, day = 5\<rparr>
         ?art (example_world []) = (Inr (arow, rrow), w')"
    by blast
  from process_article_row [OF run] obtain rt bs ch cp cs inl w1 where
    n: "normalize_content (raw_content (article_content ?art)) = Inr (rt, bs)"
    and p: "place_content example_hashlib rt bs (example_world []) = (Inr ((ch, cp, cs), inl), w1)"
    and row: "ar_inline_text arow = inl" "ar_content_hash arow = ch" "ar_content_path arow = cp"
    and b: "backend w' = backend w1"
    by blast
  from n have rt: "rt = utf8_decode ?b" and bs: "bs = ?b"
    by (auto simp: rc normalize_bytes)
  from p have "inl = None \<and> ch \<noteq> None \<and> cp \<noteq> None
        \<and> length (filter is_write_bytes (calls (backend w1))) = 1"
    unfolding rt bs place_content_blob [OF blob] blob_put_absent [OF absent ok]
    by (auto simp: is_write_bytes_def example_world_def)
  with row b have "ar_inline_text arow = None \<and> ar_content_hash arow \<noteq> None
        \<and> ar_content_path arow \<noteq> None \<and> blob_writes w' = 1"
    by (simp add: blob_writes_def)
  with run show ?thesis by blast
qed

section \<open>The placement invariant of article rows\<close>

lemma place_content_shape:
  assumes "place_content h rt bs w = (Inr ((ch, cp, cs), inl), w1)"
  shows "(inl \<noteq> None \<and> ch = None \<and> cp = None) \<or> (inl = None \<and> ch \<noteq> None \<and> cp \<noteq> None)"
proof (cases "rt = None \<or> 2000 < length (the rt)")
  case True
  from assms show ?thesis
    unfolding place_content_blob [OF True] by (auto split: prod.splits sum.splits)
next
  case False
  then obtain t where t: "rt = Some t" "length t \<le> 2000" by auto
  from assms show ?thesis
    unfolding t place_content_inline [OF t(2)] by auto
qed

lemma process_article_placed_once:
  assumes "process_article h mun bid meta eh pd pp art w = (Inr (arow, rrow), w')"
  shows "placed_once arow"
proof -
  from process_article_row [OF assms] obtain rt bs ch cp cs inl w1 where
    p: "place_content h rt bs w = (Inr ((ch, cp, cs), inl), w1)"
    and row: "ar_inline_text arow = inl" "ar_content_hash arow = ch" "ar_content_path arow = cp"
    by blast
  from place_content_shape [OF p] row show ?thesis
    by (auto simp: placed_once_def)
qed

lemma articles_loop_placed_once:
  "articles_loop h mun bid meta eh pd pp arts acc w = (Inr (ars, rrs), w') \<Longrightarrow>
   \<forall>r \<in> set (fst acc). placed_once r \<Longrightarrow> \<forall>r \<in> set ars. placed_once r"
proof (induction arts arbitrary: acc w)
  case Nil
  then show ?case by auto
next
  case (Cons a arts)
  obtain res w1 where step: "process_article h mun bid meta eh pd pp a w = (res, w1)"
    by (cases "process_article h mun bid meta eh pd pp a w")
  show ?case
  proof (cases res)
    case (Inl e)
    with Cons.prems(1) step show ?thesis by simp
  next
    case (Inr rows)
    obtain arow rrow where rows: "rows = (arow, rrow)" by (cases rows)
    from step Inr rows have ok: "process_article h mun bid meta eh pd pp a w = (Inr (arow, rrow), w1)"
      by simp
    from Cons.prems(1) ok
    have rest: "articles_loop h mun bid meta eh pd pp arts (fst acc @ [arow], snd acc @ [rrow]) w1
                  = (Inr (ars, rrs), w')"
      by simp
    from process_article_placed_once [OF ok] Cons.prems(2)
    have "\<forall>r \<in> set (fst (fst acc @ [arow], snd acc @ [rrow])). placed_once r"
      by auto
    from Cons.IH [OF rest this] show ?thesis .
  qed
qed

lemma articles_loop_lengths:
  "articles_loop h mun bid meta eh pd pp arts acc w = (Inr (ars, rrs), w') \<Longrightarrow>
   length ars = length (fst acc) + length arts \<and> length rrs = length (snd acc) + length arts"
proof (induction arts arbitrary: acc w)
  case Nil
  then show ?case by auto
next
  case (Cons a arts)
  obtain res w1 where step: "process_article h mun bid meta eh pd pp a w = (res, w1)"
    by (cases "process_article h mun bid meta eh pd pp a w")
  show ?case
  proof (cases res)
    case (Inl e)
    with Cons.prems(1) step show ?thesis by simp
  next
    case (Inr rows)
    obtain arow rrow where rows: "rows = (arow, rrow)" by (cases rows)
    from Cons.prems(1) step Inr rows
    have rest: "articles_loop h mun bid meta eh pd pp arts (fst acc @ [arow], snd acc @ [rrow]) w1
                  = (Inr (ars, rrs), w')"
      by simp
    from Cons.IH [OF rest] show ?thesis by simp
  qed
qed

lemma process_edition_cases:
  assumes "process_edition h mun bid e acc w = (Inr (ers, ars, rrs), w')"
  shows "\<exists>pd erow w2.
           strptime_ymd (publication_date (metadata e)) = Inr pd
           \<and> ers = fst acc @ [erow]
           \<and> articles_loop h mun bid (metadata e) (generate_edition_hash h e) pd (parts_of pd)
                (articles e) (fst (snd acc), snd (snd acc)) w2 = (Inr (ars, rrs), w')"
proof (cases "strptime_ymd (publication_date (metadata e))")
  case (Inl err)
  with assms show ?thesis
    by (simp add: process_edition_def Let_def split_def)
next
  case (Inr pd)
  let ?w2 = "snd (now (snd (publication_date_parts (publication_date (metadata e)) w)))"
  let ?loop = "articles_loop h mun bid (metadata e) (generate_edition_hash h e) pd (parts_of pd)
                (articles e) (fst (snd acc), snd (snd acc)) ?w2"
  have parts: "fst (publication_date_parts (publication_date (metadata e)) w) = parts_of pd"
    by (simp add: publication_date_parts_def Inr)
  obtain res w3 where loop: "?loop = (res, w3)" by (cases ?loop)
  show ?thesis
  proof (cases res)
    case (Inl err)
    with assms Inr loop parts show ?thesis
      by (simp add: process_edition_def Let_def split_def)
  next
    case r: (Inr rows)
    with assms Inr loop parts have "rows = (ars, rrs)" "w3 = w'"
      by (auto simp add: process_edition_def Let_def split_def)
    moreover from assms Inr loop parts r
    have "\<exists>erow. ers = fst acc @ [erow]"
      by (auto simp add: process_edition_def Let_def split_def)
    ultimately show ?thesis using Inr loop r by auto
  qed
qed

lemma process_edition_placed_once:
  assumes "process_edition h mun bid e acc w = (Inr (ers, ars, rrs), w')"
    and "\<forall>r \<in> set (fst (snd acc)). placed_once r"
  shows "\<forall>r \<in> set ars. placed_once r"
proof -
  from process_edition_cases [OF assms(1)] obtain pd w2 where
    "articles_loop h mun bid (metadata e) (generate_edition_hash h e) pd (parts_of pd)
       (articles e) (fst (snd acc), snd (snd acc)) w2 = (Inr (ars, rrs), w')"
    by blast
  from articles_loop_placed_once [OF this] assms(2) show ?thesis by simp
qed

lemma process_edition_lengths:
  assumes "process_edition h mun bid e acc w = (Inr (ers, ars, rrs), w')"
  shows "length ers = Suc (length (fst acc))
    \<and> length ars = length (fst (snd acc)) + length (articles e)
    \<and> length rrs = length (snd (snd acc)) + length (articles e)"
proof -
  from process_edition_cases [OF assms(1)] obtain pd erow w2 where
    "ers = fst acc @ [erow]"
    "articles_loop h mun bid (metadata e) (generate_edition_hash h e) pd (parts_of pd)
       (articles e) (fst (snd acc), snd (snd acc)) w2 = (Inr (ars, rrs), w')"
    by blast
  with articles_loop_lengths [OF this(2)] show ?thesis by simp
qed

lemma editions_loop_placed_once:
  "editions_loop h mun bid es acc w = (Inr (ers, ars, rrs), w') \<Longrightarrow>
   \<forall>r \<in> set (fst (snd acc)). placed_once r \<Longrightarrow> \<forall>r \<in> set ars. placed_once r"
proof (induction es arbitrary: acc w)
  case Nil
  then show ?case by auto
next
  case (Cons e es)
  obtain res w1 where step: "process_edition h mun bid e acc w = (res, w1)"
    by (cases "process_edition h mun bid e acc w")
  show ?case
  proof (cases res)
    case (Inl err)
    with Cons.prems(1) step show ?thesis by simp
  next
    case (Inr acc1)
    obtain ers1 ars1 rrs1 where acc1: "acc1 = (ers1, ars1, rrs1)" by (cases acc1)
    from step Inr acc1
    have ok: "process_edition h mun bid e acc w = (Inr (ers1, ars1, rrs1), w1)" by simp
    from Cons.prems(1) ok
    have rest: "editions_loop h mun bid es (ers1, ars1, rrs1) w1 = (Inr (ers, ars, rrs), w')"
      by simp
    from process_edition_placed_once [OF ok Cons.prems(2)]
    have "\<forall>r \<in> set (fst (snd (ers1, ars1, rrs1))). placed_once r" by simp
    from Cons.IH [OF rest this] show ?thesis .
  qed
qed

lemma editions_loop_lengths:
  "editions_loop h mun bid es acc w = (Inr (ers, ars, rrs), w') \<Longrightarrow>
   length ers = length (fst acc) + length es
   \<and> length ars = length (fst (snd acc)) + sum_list (map (\<lambda>e. length (articles e)) es)
   \<and> length rrs = length (snd (snd acc)) + sum_list (map (\<lambda>e. length (articles e)) es)"
proof (induction es arbitrary: acc w)
  case Nil
  then show ?case by auto
next
  case (Cons e es)
  obtain res w1 where step: "process_edition h mun bid e acc w = (res, w1)"
    by (cases "process_edition h mun bid e acc w")
  show ?case
  proof (cases res)
    case (Inl err)
    with Cons.prems(1) step show ?thesis by simp
  next
    case (Inr acc1)
    obtain ers1 ars1 rrs1 where acc1: "acc1 = (ers1, ars1, rrs1)" by (cases acc1)
    from step Inr acc1
    have ok: "process_edition h mun bid e acc w = (Inr (ers1, ars1, rrs1), w1)" by simp
    from Cons.prems(1) ok
    have rest: "editions_loop h mun bid es (ers1, ars1, rrs1) w1 = (Inr (ers, ars, rrs), w')"
      by simp
    from Cons.IH [OF rest] process_edition_lengths [OF ok] show ?thesis by simp
  qed
qed

lemma process_edition_bad_date:
  assumes "strptime_ymd (publication_date (metadata e)) = Inl x"
  shows "process_edition h mun bid e acc w = (Inl x, w\<lparr>ticks := Suc (ticks w)\<rparr>)"
  using assms
  by (simp add: process_edition_def publication_date_parts_def now_def Let_def split_def)

lemma editions_loop_bad_date:
  "e \<in> set es \<Longrightarrow> strptime_ymd (publication_date (metadata e)) = Inl x \<Longrightarrow>
   \<exists>err w'. editions_loop h mun bid es acc w = (Inl err, w')"
proof (induction es arbitrary: acc w)
  case Nil
  then show ?case by simp
next
  case (Cons e' es)
  obtain res w1 where step: "process_edition h mun bid e' acc w = (res, w1)"
    by (cases "process_edition h mun bid e' acc w")
  show ?case
  proof (cases res)
    case (Inl err)
    with step show ?thesis by simp
  next
    case (Inr acc1)
    with step process_edition_bad_date [of e' _ h mun bid acc w] Cons.prems
    have "e \<in> set es" by (cases "e = e'") auto
    from Cons.IH [OF this Cons.prems(2)] step Inr show ?thesis by simp
  qed
qed

lemma write_rows_unfold:
  "write_rows ne p t m w =
     (if \<not> ne then (Inr False, w)
      else if write_fails (backend w) p then
        (Inl (OSError p), w\<lparr>backend := (backend w)\<lparr>calls := calls (backend w) @ [WriteParquet p]\<rparr>\<rparr>)
      else
        (Inr True,
         w\<lparr>backend := (backend w)\<lparr>calls := calls (backend w) @ [WriteParquet p],
                                 files := AList.update p (ParquetFile t) (files (backend w))\<rparr>,
           log := log w @ [(INFO, m)]\<rparr>))"
  by (simp add: write_rows_def write_parquet_def called_def logger_def Let_def)

lemma persist_success:
  assumes "persist mun ts bid ers ars rrs w = (Inr st, w')"
  shows "st_editions st = length ers \<and> st_articles st = length ars
    \<and> st_relationships st = length rrs
    \<and> st_timestamp st = Some ts
    \<and> (ars \<noteq> [] \<longrightarrow>
         map_of (files (backend w')) (''articles/batch_'' @ ts @ ''.parquet'')
           = Some (ParquetFile (ArticlesTable ars)))"
  using assms
  by (auto simp add: persist_def write_rows_unfold Let_def update_conv' split: if_splits)

lemma save_editions_nonempty:
  assumes "editions \<noteq> []"
  shows "save_editions h editions kwargs w =
     (case editions_loop h (case kw_municipality kwargs of None \<Rightarrow> [] | Some m \<Rightarrow> m)
             (case kw_batch_id kwargs of
                None \<Rightarrow> ''batch_'' @ strftime_compact (clock w (ticks w)) | Some b \<Rightarrow> b)
             editions ([], [], []) (w\<lparr>ticks := Suc (ticks w)\<rparr>) of
        (Inl e, w2) \<Rightarrow> (Inl e, w2)
      | (Inr (ers, ars, rrs), w2) \<Rightarrow>
          persist (case kw_municipality kwargs of None \<Rightarrow> [] | Some m \<Rightarrow> m)
            (strftime_compact (clock w (ticks w)))
            (case kw_batch_id kwargs of
                None \<Rightarrow> ''batch_'' @ strftime_compact (clock w (ticks w)) | Some b \<Rightarrow> b)
            ers ars rrs w2)"
  using assms by (simp add: save_editions_def now_def Let_def)

text \<open>
  C4. Every article row that \<open>save_editions\<close> produces is placed exactly once:
  either \<open>inline_text\<close> is not null, or \<open>content_hash\<close> and \<open>content_path\<close> are both
  not null, never both and never neither. When a call returns with a positive
  article count, the article table it wrote holds exactly that many rows and each
  of them satisfies the invariant. (The rows of the loop satisfy it as well when
  the call fails later: \<open>editions_loop_placed_once\<close>.)
\<close>

theorem article_rows_placed_once:
  assumes "save_editions h editions kwargs w = (Inr st, w')" and "0 < st_articles st"
  shows "\<exists>rows.
           map_of (files (backend w'))
             (''articles/batch_'' @ strftime_compact (clock w (ticks w)) @ ''.parquet'')
             = Some (ParquetFile (ArticlesTable rows))
           \<and> length rows = st_articles st
           \<and> (\<forall>r \<in> set rows. placed_once r)"
proof -
  let ?mun = "case kw_municipality kwargs of None \<Rightarrow> [] | Some m \<Rightarrow> m"
  let ?ts = "strftime_compact (clock w (ticks w))"
  let ?bid = "case kw_batch_id kwargs of None \<Rightarrow> ''batch_'' @ ?ts | Some b \<Rightarrow> b"
  let ?loop = "editions_loop h ?mun ?bid editions ([], [], []) (w\<lparr>ticks := Suc (ticks w)\<rparr>)"
  from assms have ne: "editions \<noteq> []"
    by (auto simp: save_editions_def)
  obtain res w2 where loop: "?loop = (res, w2)" by (cases ?loop)
  show ?thesis
  proof (cases res)
    case (Inl e)
    with assms(1) loop show ?thesis
      by (simp add: save_editions_nonempty [OF ne])
  next
    case (Inr acc)
    obtain ers ars rrs where acc: "acc = (ers, ars, rrs)" by (cases acc)
    from loop Inr acc have ok: "?loop = (Inr (ers, ars, rrs), w2)" by simp
    from assms(1) ok have p: "persist ?mun ?ts ?bid ers ars rrs w2 = (Inr st, w')"
      by (simp add: save_editions_nonempty [OF ne])
    from editions_loop_placed_once [OF ok] have placed: "\<forall>r \<in> set ars. placed_once r"
      by simp
    from persist_success [OF p] assms(2) placed show ?thesis by auto
  qed
qed

lemma example_date: "strptime_ymd ''2024-03-05'' = Inr \<lparr>d_year = 2024, d_month = 3, d_day = 5\<rparr>"
  by (simp add: strptime_ymd_def is_digit_def match_month_def match_day_def after_month_def
      in_range_def digit_val_def List.map_filter_simps valid_ymd_def days_in_month_def)

lemma example_timestamp: "strftime_compact (example_clock 0) = ''20240305_120000''"
  by code_simp

lemma example_save_runs:
  "\<exists>st w'. save_editions example_hashlib
      [\<lparr>metadata = example_metadata ''2024-03-05'', articles = [example_article RawNone]\<rparr>]
      no_kwargs (example_world []) = (Inr st, w') \<and> st_articles st = 1"
  by (simp add: save_editions_def now_def no_kwargs_def process_edition_def
      example_metadata_def publication_date_parts_def example_date process_article_def
      example_article_def normalize_none place_content_inline persist_def write_rows_unfold
      example_world_def Let_def split_def)

theorem article_rows_placed_once_witness:
  "\<exists>st w' rows.
     save_editions example_hashlib
       [\<lparr>metadata = example_metadata ''2024-03-05'', articles = [example_article RawNone]\<rparr>]
       no_kwargs (example_world []) = (Inr st, w')
     \<and> 0 < st_articles st
     \<and> map_of (files (backend w')) ''articles/batch_20240305_120000.parquet''
         = Some (ParquetFile (ArticlesTable rows))
     \<and> length rows = 1
     \<and> (\<forall>r \<in> set rows. placed_once r)"
proof -
  from example_save_runs obtain st w' where
    run: "save_editions example_hashlib
       [\<lparr>metadata = example_metadata ''2024-03-05'', articles = [example_article RawNone]\<rparr>]
       no_kwargs (example_world []) = (Inr st, w')"
    and n: "st_articles st = 1"
    by blast
  from n have pos: "0 < st_articles st" by simp
  have ts: "strftime_compact (clock (example_world []) (ticks (example_world [])))
              = ''20240305_120000''"
    by (simp add: example_world_def example_timestamp)
  from article_rows_placed_once [OF run pos] obtain rows where
    "map_of (files (backend w')) ''articles/batch_20240305_120000.parquet''
         = Some (ParquetFile (ArticlesTable rows))"
    "length rows = st_articles st" "\<forall>r \<in> set rows. placed_once r"
    unfolding ts by auto
  with run pos n show ?thesis by auto
qed

section \<open>The three table writes\<close>

lemma persist_editions_write_fails:
  assumes "ers \<noteq> []" and "write_fails (backend w) (''gazettes/batch_'' @ ts @ ''.parquet'')"
  shows "\<exists>w'. persist mun ts bid ers ars rrs w
             = (Inl (OSError (''gazettes/batch_'' @ ts @ ''.parquet'')), w')
     \<and> files (backend w') = files (backend w)
     \<and> calls (backend w') = calls (backend w) @ [WriteParquet (''gazettes/batch_'' @ ts @ ''.parquet'')]
     \<and> log w' = log w @ [(ERROR, SaveFailed (OSError (''gazettes/batch_'' @ ts @ ''.parquet'')))]"
  using assms by (simp add: persist_def write_rows_unfold Let_def logger_def)

lemma persist_articles_write_fails:
  assumes "ers \<noteq> []" and "ars \<noteq> []"
    and "\<not> write_fails (backend w) (''gazettes/batch_'' @ ts @ ''.parquet'')"
    and "write_fails (backend w) (''articles/batch_'' @ ts @ ''.parquet'')"
  shows "\<exists>w'. persist mun ts bid ers ars rrs w
             = (Inl (OSError (''articles/batch_'' @ ts @ ''.parquet'')), w')
     \<and> map_of (files (backend w')) (''gazettes/batch_'' @ ts @ ''.parquet'')
         = Some (ParquetFile (EditionsTable ers))
     \<and> calls (backend w') =
         calls (backend w) @ [WriteParquet (''gazettes/batch_'' @ ts @ ''.parquet''),
                              WriteParquet (''articles/batch_'' @ ts @ ''.parquet'')]
     \<and> log w' = log w @ [(INFO, EditionsSaved (length ers)),
                         (ERROR, SaveFailed (OSError (''articles/batch_'' @ ts @ ''.parquet'')))]"
  using assms by (simp add: persist_def write_rows_unfold Let_def logger_def update_conv')

lemma persist_relationships_write_fails:
  assumes "ers \<noteq> []" and "ars \<noteq> []" and "rrs \<noteq> []"
    and "\<not> write_fails (backend w) (''gazettes/batch_'' @ ts @ ''.parquet'')"
    and "\<not> write_fails (backend w) (''articles/batch_'' @ ts @ ''.parquet'')"
    and "write_fails (backend w) (''relationships/batch_'' @ ts @ ''.parquet'')"
  shows "\<exists>w'. persist mun ts bid ers ars rrs w
             = (Inl (OSError (''relationships/batch_'' @ ts @ ''.parquet'')), w')
     \<and> map_of (files (backend w')) (''gazettes/batch_'' @ ts @ ''.parquet'')
         = Some (ParquetFile (EditionsTable ers))
     \<and> map_of (files (backend w')) (''articles/batch_'' @ ts @ ''.parquet'')
         = Some (ParquetFile (ArticlesTable ars))
     \<and> calls (backend w') =
         calls (backend w) @ [WriteParquet (''gazettes/batch_'' @ ts @ ''.parquet''),
                              WriteParquet (''articles/batch_'' @ ts @ ''.parquet''),
                              WriteParquet (''relationships/batch_'' @ ts @ ''.parquet'')]
     \<and> log w' = log w @ [(INFO, EditionsSaved (length ers)), (INFO, ArticlesSaved (length ars)),
                         (ERROR, SaveFailed (OSError (''relationships/batch_'' @ ts @ ''.parquet'')))]"
  using assms by (simp add: persist_def write_rows_unfold Let_def logger_def update_conv')

text \<open>
  C5. After the rows of a non-empty batch have been built, \<open>save_editions\<close> writes
  the editions table, then the articles table, then the relationships table, one
  after the other and without a transaction. A write that fails ends the call with
  the error of that write (the handler logs it and raises it again; it is never
  swallowed), no later write is attempted, and the tables written before stay in
  the store: when the articles write fails the editions table is in place, when
  the relationships write fails the editions and the articles tables are in place.
  Nothing is rolled back.
\<close>

theorem save_editions_not_transactional:
  assumes ne: "editions \<noteq> []"
    and ts: "ts = strftime_compact (clock w (ticks w))"
    and loop: "editions_loop h (case kw_municipality kwargs of None \<Rightarrow> [] | Some m \<Rightarrow> m)
                 (case kw_batch_id kwargs of None \<Rightarrow> ''batch_'' @ ts | Some b \<Rightarrow> b)
                 editions ([], [], []) (w\<lparr>ticks := Suc (ticks w)\<rparr>)
               = (Inr (ers, ars, rrs), w2)"
  shows "(write_fails (backend w2) (''gazettes/batch_'' @ ts @ ''.parquet'') \<longrightarrow>
       (\<exists>w'. save_editions h editions kwargs w
                = (Inl (OSError (''gazettes/batch_'' @ ts @ ''.parquet'')), w')
          \<and> files (backend w') = files (backend w2)
          \<and> calls (backend w') =
              calls (backend w2) @ [WriteParquet (''gazettes/batch_'' @ ts @ ''.parquet'')]))
    \<and> (\<not> write_fails (backend w2) (''gazettes/batch_'' @ ts @ ''.parquet'')
        \<and> ars \<noteq> [] \<and> write_fails (backend w2) (''articles/batch_'' @ ts @ ''.parquet'') \<longrightarrow>
       (\<exists>w'. save_editions h editions kwargs w
                = (Inl (OSError (''articles/batch_'' @ ts @ ''.parquet'')), w')
          \<and> map_of (files (backend w')) (''gazettes/batch_'' @ ts @ ''.parquet'')
              = Some (ParquetFile (EditionsTable ers))
          \<and> calls (backend w') =
              calls (backend w2) @ [WriteParquet (''gazettes/batch_'' @ ts @ ''.parquet''),
                                    WriteParquet (''articles/batch_'' @ ts @ ''.parquet'')]))
    \<and> (\<not> write_fails (backend w2) (''gazettes/batch_'' @ ts @ ''.parquet'')
        \<and> \<not> write_fails (backend w2) (''articles/batch_'' @ ts @ ''.parquet'')
        \<and> ars \<noteq> [] \<and> write_fails (backend w2) (''relationships/batch_'' @ ts @ ''.parquet'') \<longrightarrow>
       (\<exists>w'. save_editions h editions kwargs w
                = (Inl (OSError (''relationships/batch_'' @ ts @ ''.parquet'')), w')
          \<and> map_of (files (backend w')) (''gazettes/batch_'' @ ts @ ''.parquet'')
              = Some (ParquetFile (EditionsTable ers))
          \<and> map_of (files (backend w')) (''articles/batch_'' @ ts @ ''.parquet'')
              = Some (ParquetFile (ArticlesTable ars))
          \<and> calls (backend w') =
              calls (backend w2) @ [WriteParquet (''gazettes/batch_'' @ ts @ ''.parquet''),
                                    WriteParquet (''articles/batch_'' @ ts @ ''.parquet''),
                                    WriteParquet (''relationships/batch_'' @ ts @ ''.parquet'')]))"
proof -
  let ?ts = "strftime_compact (clock w (ticks w))"
  let ?mun = "case kw_municipality kwargs of None \<Rightarrow> [] | Some m \<Rightarrow> m"
  let ?bid = "case kw_batch_id kwargs of None \<Rightarrow> ''batch_'' @ ?ts | Some b \<Rightarrow> b"
  from loop have loop': "editions_loop h ?mun ?bid editions ([], [], []) (w\<lparr>ticks := Suc (ticks w)\<rparr>)
               = (Inr (ers, ars, rrs), w2)"
    unfolding ts .
  from editions_loop_lengths [OF loop'] ne
  have ers: "ers \<noteq> []" and same: "length rrs = length ars"
    by auto
  then have rrs: "ars \<noteq> [] \<Longrightarrow> rrs \<noteq> []" by auto
  have save: "save_editions h editions kwargs w = persist ?mun ?ts ?bid ers ars rrs w2"
    unfolding save_editions_nonempty [OF ne] loop' by simp
  show ?thesis
    unfolding save ts
    using persist_editions_write_fails [OF ers, of w2 ?ts ?mun ?bid ars rrs]
      persist_articles_write_fails [OF ers, of ars w2 ?ts ?mun ?bid rrs]
      persist_relationships_write_fails [OF ers, of ars rrs w2 ?ts ?mun ?bid] rrs
    by blast
qed

lemma example_loop_runs:
  "\<exists>ers ars rrs w2.
     editions_loop example_hashlib [] ''batch_20240305_120000''
       [\<lparr>metadata = example_metadata ''2024-03-05'', articles = [example_article RawNone]\<rparr>]
       ([], [], []) ((example_world bad)\<lparr>ticks := Suc (ticks (example_world bad))\<rparr>)
       = (Inr (ers, ars, rrs), w2)
     \<and> ars \<noteq> [] \<and> write_fails (backend w2) = (\<lambda>p. p \<in> set bad)
     \<and> calls (backend w2) = []"
  by (simp add: process_edition_def example_metadata_def publication_date_parts_def
      example_date process_article_def example_article_def normalize_none
      place_content_inline example_world_def now_def Let_def split_def)

theorem save_editions_not_transactional_witness:
  "\<exists>w'. save_editions example_hashlib
       [\<lparr>metadata = example_metadata ''2024-03-05'', articles = [example_article RawNone]\<rparr>]
       no_kwargs (example_world [''articles/batch_20240305_120000.parquet''])
       = (Inl (OSError ''articles/batch_20240305_120000.parquet''), w')
     \<and> map_of (files (backend w')) ''gazettes/batch_20240305_120000.parquet'' \<noteq> None
     \<and> calls (backend w') =
         [WriteParquet ''gazettes/batch_20240305_120000.parquet'',
          WriteParquet ''articles/batch_20240305_120000.parquet'']"
proof -
  let ?bad = "[''articles/batch_20240305_120000.parquet'']"
  let ?eds = "[\<lparr>metadata = example_metadata ''2024-03-05'',
                articles = [example_article RawNone]\<rparr>]"
  have ne: "?eds \<noteq> []" by simp
  have ts: "''20240305_120000''
              = strftime_compact (clock (example_world ?bad) (ticks (example_world ?bad)))"
    by (simp add: example_world_def example_timestamp)
  from example_loop_runs [of ?bad] obtain ers ars rrs w2 where
    loop: "editions_loop example_hashlib [] ''batch_20240305_120000'' ?eds ([], [], [])
             ((example_world ?bad)\<lparr>ticks := Suc (ticks (example_world ?bad))\<rparr>)
           = (Inr (ers, ars, rrs), w2)"
    and ars: "ars \<noteq> []"
    and fails: "write_fails (backend w2) = (\<lambda>p. p \<in> set ?bad)"
    and w2_calls: "calls (backend w2) = []"
    by blast
  have loop': "editions_loop example_hashlib
                 (case kw_municipality no_kwargs of None \<Rightarrow> [] | Some m \<Rightarrow> m)
                 (case kw_batch_id no_kwargs of
                    None \<Rightarrow> ''batch_'' @ ''20240305_120000'' | Some b \<Rightarrow> b)
                 ?eds ([], [], [])
                 ((example_world ?bad)\<lparr>ticks := Suc (ticks (example_world ?bad))\<rparr>)
               = (Inr (ers, ars, rrs), w2)"
    using loop by (simp add: no_kwargs_def)
  from save_editions_not_transactional [OF ne ts loop'] ars fails w2_calls
  show ?thesis by auto
qed

section \<open>Editions with an unparsable date\<close>

lemma publication_date_parts_fallback:
  "strptime_ymd pd = Inl x \<Longrightarrow>
   publication_date_parts pd w =
     (parts_of (date_of (clock w (ticks w))), w\<lparr>ticks := Suc (ticks w)\<rparr>)"
  by (simp add: publication_date_parts_def now_def)

lemma save_editions_bad_date:
  assumes "e \<in> set editions" and "strptime_ymd (publication_date (metadata e)) = Inl x"
  shows "\<exists>err w'. save_editions h editions kwargs w = (Inl err, w')"
proof -
  from assms(1) have ne: "editions \<noteq> []" by auto
  from editions_loop_bad_date [OF assms] obtain err w2 where
    "editions_loop h (case kw_municipality kwargs of None \<Rightarrow> [] | Some m \<Rightarrow> m)
       (case kw_batch_id kwargs of
          None \<Rightarrow> ''batch_'' @ strftime_compact (clock w (ticks w)) | Some b \<Rightarrow> b)
       editions ([], [], []) (w\<lparr>ticks := Suc (ticks w)\<rparr>) = (Inl err, w2)"
    by blast
  then show ?thesis
    unfolding save_editions_nonempty [OF ne] by simp
qed

lemma example_bad_date: "strptime_ymd ''05/03/2024'' = Inl ValueError"
  by (simp add: strptime_ymd_def is_digit_def)

text \<open>
  C1. The claim: an edition whose \<open>publication_date\<close> does not match \<^verbatim>\<open>%Y-%m-%d\<close>
  is still saved, with the current date in the partition fields. The code does
  not do this. \<^verbatim>\<open>_publication_date_parts\<close> does fall back to the current date, but
  line 151 parses the same string again outside any handler, so \<open>save_editions\<close>
  raises \<^verbatim>\<open>ValueError\<close> before a row is built: for the date \<open>05/03/2024\<close> the call
  fails, whatever the articles, the keyword arguments and the state are, and
  nothing is written and nothing is logged.
\<close>

theorem save_editions_bad_date_raises:
  "save_editions h [\<lparr>metadata = example_metadata ''05/03/2024'', articles = arts\<rparr>] kwargs w
     = (Inl ValueError, w\<lparr>ticks := Suc (Suc (ticks w))\<rparr>)
   \<and> fst (publication_date_parts ''05/03/2024'' w) = parts_of (date_of (clock w (ticks w)))"
  by (simp add: save_editions_nonempty process_edition_bad_date example_bad_date
      example_metadata_def publication_date_parts_fallback [OF example_bad_date])

section \<open>The rows of a saved batch\<close>

lemma evolves_refl: "evolves h b b"
  by (simp add: evolves_def)

lemma evolves_trans:
  assumes "evolves h b1 b2" and "evolves h b2 b3"
  shows "evolves h b1 b3"
  unfolding evolves_def
proof (intro conjI allI impI)
  show "write_fails b3 = write_fails b1" using assms by (simp add: evolves_def)
  show "set (calls b1) \<subseteq> set (calls b3)" using assms by (auto simp: evolves_def)
next
  fix p v assume "map_of (files b1) p = Some v"
  with assms(1) obtain v2 where "map_of (files b2) p = Some v2" by (auto simp: evolves_def)
  with assms(2) show "map_of (files b3) p \<noteq> None" unfolding evolves_def by blast
next
  fix x v assume "map_of (files b1) (blob_path x) = Some v"
  with assms(1) have "map_of (files b2) (blob_path x) = Some v" unfolding evolves_def by blast
  with assms(2) show "map_of (files b3) (blob_path x) = Some v" unfolding evolves_def by blast
next
  fix x v assume a: "map_of (files b1) (blob_path x) = None"
    and c: "map_of (files b3) (blob_path x) = Some v"
  show "\<exists>bs. v = BytesFile bs \<and> blob_path (sha256_hexdigest h bs) = blob_path x"
  proof (cases "map_of (files b2) (blob_path x)")
    case None
    with assms(2) c show ?thesis unfolding evolves_def by blast
  next
    case (Some v2)
    with assms(2) have "map_of (files b3) (blob_path x) = Some v2" unfolding evolves_def by blast
    with c have "v2 = v" by simp
    with assms(1) a Some show ?thesis unfolding evolves_def by blast
  qed
qed

lemma blob_path_not_sidecar: "blob_path x \<noteq> p @ ''.meta.json''"
proof
  assume "blob_path x = p @ ''.meta.json''"
  then have "rev (blob_path x) = rev (p @ ''.meta.json'')" by simp
  then show False by (simp add: blob_path_def)
qed


lemma write_content_blob_evolves:
  assumes "write_content_blob h (PyBytes bs) w = (r, w1)"
  shows "evolves h (backend w) (backend w1)"
proof (cases "map_of (files (backend w)) (blob_path (sha256_hexdigest h bs)) = None")
  case absent: True
  show ?thesis
  proof (cases "write_fails (backend w) (blob_path (sha256_hexdigest h bs))")
    case True
    from assms blob_put_fails [OF absent True] show ?thesis
      by (auto simp: evolves_def)
  next
    case False
    from assms blob_put_absent [OF absent False] absent show ?thesis
      by (auto simp: evolves_def update_conv' blob_path_not_sidecar split: if_splits)
  qed
next
  case False
  from assms blob_put_present [OF False] show ?thesis
    by (auto simp: evolves_def)
qed

lemma place_content_evolves:
  assumes "place_content h rt bs w = (r, w1)"
  shows "evolves h (backend w) (backend w1)"
proof (cases "rt = None \<or> 2000 < length (the rt)")
  case True
  obtain r0 w0 where wb: "write_content_blob h (PyBytes bs) w = (r0, w0)"
    by (cases "write_content_blob h (PyBytes bs) w")
  from assms have "w1 = w0"
    unfolding place_content_blob [OF True] wb by (auto split: sum.splits)
  with write_content_blob_evolves [OF wb] show ?thesis by simp
next
  case False
  then obtain t where t: "rt = Some t" "length t \<le> 2000" by auto
  from assms show ?thesis
    unfolding t place_content_inline [OF t(2)] by (auto simp: evolves_refl)
qed

lemma blob_row_mono: "evolves h b b' \<Longrightarrow> blob_row h b r bs \<Longrightarrow> blob_row h b' r bs"
  unfolding evolves_def blob_row_def by blast

lemma row_of_article_mono:
  "evolves h b b' \<Longrightarrow> row_of_article h b a r \<Longrightarrow> row_of_article h b' a r"
  unfolding row_of_article_def
  by (auto split: option.splits if_splits dest: blob_row_mono)

lemma process_article_row_of_article:
  assumes run: "process_article h mun bid meta eh pd pp art w = (Inr (arow, rrow), w')"
  shows "row_of_article h (backend w') art arow \<and> evolves h (backend w) (backend w')"
proof -
  from process_article_row [OF run] obtain rt bs ch cp cs inl w1 where
    n: "normalize_content (raw_content (article_content art)) = Inr (rt, bs)"
    and p: "place_content h rt bs w = (Inr ((ch, cp, cs), inl), w1)"
    and row: "ar_inline_text arow = inl" "ar_content_hash arow = ch" "ar_content_path arow = cp"
      "ar_content_size arow = cs"
    and b: "backend w' = backend w1"
    by blast
  from normalize_content_body [OF n]
  have rt: "body_text (raw_content (article_content art)) = rt"
    and bs: "body_bytes (raw_content (article_content art)) = Some bs"
    by simp_all
  have ev: "evolves h (backend w) (backend w')"
    using place_content_evolves [OF p] b by simp
  have "row_of_article h (backend w') art arow"
  proof (cases "rt = None \<or> 2000 < length (the rt)")
    case True
    from p obtain blob where
      wb: "write_content_blob h (PyBytes bs) w = (Inr blob, w1)"
      and c: "ch = Some (content_hash blob)" "cp = Some (content_path blob)" "inl = None"
        "cs = content_size blob"
      unfolding place_content_blob [OF True]
      by (auto split: prod.splits sum.splits)
    from write_content_blob_result [OF wb] c row b
    have "blob_row h (backend w') arow bs \<and> ar_content_size arow = length bs"
      by (simp add: blob_row_def)
    with True show ?thesis
      unfolding row_of_article_def rt bs by (auto split: option.splits)
  next
    case False
    then obtain t where t: "rt = Some t" "length t \<le> 2000" by auto
    from p row have "stored_inline arow t \<and> ar_content_size arow = length bs"
      unfolding t place_content_inline [OF t(2)] by (auto simp: stored_inline_def)
    with t show ?thesis unfolding row_of_article_def rt bs by simp
  qed
  with ev show ?thesis by simp
qed

lemma utf8_encode_nil: "utf8_encode [] = Some []"
  by (simp add: utf8_encode_def)

lemma normalize_content_total:
  assumes "body_bytes rc = Some bs"
  shows "normalize_content rc = Inr (body_text rc, bs)"
  using assms
  by (cases rc)
    (auto simp: normalize_content_def body_text_def body_bytes_def utf8_encode_nil)

lemma place_content_total:
  assumes "\<not> write_fails (backend w) (blob_path (sha256_hexdigest h bs))"
  shows "\<exists>v w1. place_content h rt bs w = (Inr v, w1)"
proof (cases "rt = None \<or> 2000 < length (the rt)")
  case True
  show ?thesis
  proof (cases "map_of (files (backend w)) (blob_path (sha256_hexdigest h bs)) = None")
    case absent: True
    show ?thesis
      unfolding place_content_blob [OF True] blob_put_absent [OF absent assms] by simp
  next
    case False
    show ?thesis
      unfolding place_content_blob [OF True] blob_put_present [OF False] by simp
  qed
next
  case False
  then obtain t where t: "rt = Some t" "length t \<le> 2000" by auto
  show ?thesis unfolding t place_content_inline [OF t(2)] by simp
qed

lemma process_article_total:
  assumes "body_bytes (raw_content (article_content art)) \<noteq> None"
    and "\<forall>p. \<not> write_fails (backend w) p"
  shows "\<exists>arow rrow w'. process_article h mun bid meta eh pd pp art w = (Inr (arow, rrow), w')"
proof -
  from assms(1) obtain bs where bs: "body_bytes (raw_content (article_content art)) = Some bs"
    by auto
  from assms(2) have "\<not> write_fails (backend w) (blob_path (sha256_hexdigest h bs))" by simp
  from place_content_total [OF this] obtain v w1 where
    "place_content h (body_text (raw_content (article_content art))) bs w = (Inr v, w1)"
    by blast
  from process_article_returns [OF normalize_content_total [OF bs] this] show ?thesis .
qed

lemma articles_loop_rows:
  assumes "\<forall>a \<in> set arts. body_bytes (raw_content (article_content a)) \<noteq> None"
    and "\<forall>p. \<not> write_fails (backend w) p"
  shows "\<exists>ars rrs w'.
           articles_loop h mun bid meta eh pd pp arts acc w
             = (Inr (fst acc @ ars, snd acc @ rrs), w')
           \<and> list_all2 (row_of_article h (backend w')) arts ars
           \<and> length rrs = length arts
           \<and> evolves h (backend w) (backend w')"
  using assms
proof (induction arts arbitrary: acc w)
  case Nil
  then show ?case by (simp add: evolves_refl)
next
  case (Cons a arts)
  from Cons.prems have body: "body_bytes (raw_content (article_content a)) \<noteq> None" by simp
  from process_article_total [OF body Cons.prems(2)] obtain arow rrow w1 where
    step: "process_article h mun bid meta eh pd pp a w = (Inr (arow, rrow), w1)"
    by blast
  from process_article_row_of_article [OF step]
  have row: "row_of_article h (backend w1) a arow" and ev1: "evolves h (backend w) (backend w1)"
    by simp_all
  from ev1 Cons.prems(2) have nofail: "\<forall>p. \<not> write_fails (backend w1) p"
    by (simp add: evolves_def)
  from Cons.prems(1) have rest: "\<forall>a \<in> set arts. body_bytes (raw_content (article_content a)) \<noteq> None"
    by simp
  from Cons.IH [OF rest nofail, of "(fst acc @ [arow], snd acc @ [rrow])"]
  obtain ars rrs w' where
    loop: "articles_loop h mun bid meta eh pd pp arts (fst acc @ [arow], snd acc @ [rrow]) w1
             = (Inr ((fst acc @ [arow]) @ ars, (snd acc @ [rrow]) @ rrs), w')"
    and rows: "list_all2 (row_of_article h (backend w')) arts ars"
    and len: "length rrs = length arts"
    and ev2: "evolves h (backend w1) (backend w')"
    by auto
  have "articles_loop h mun bid meta eh pd pp (a # arts) acc w
          = (Inr (fst acc @ (arow # ars), snd acc @ (rrow # rrs)), w')"
    using step loop by simp
  moreover have "list_all2 (row_of_article h (backend w')) (a # arts) (arow # ars)"
    using rows row_of_article_mono [OF ev2 row] by simp
  moreover have "length (rrow # rrs) = length (a # arts)" using len by simp
  moreover have "evolves h (backend w) (backend w')" by (rule evolves_trans [OF ev1 ev2])
  ultimately show ?case by blast
qed

lemma process_edition_rows:
  assumes date: "strptime_ymd (publication_date (metadata e)) = Inr pd"
    and bodies: "\<forall>a \<in> set (articles e). body_bytes (raw_content (article_content a)) \<noteq> None"
    and nofail: "\<forall>p. \<not> write_fails (backend w) p"
  shows "\<exists>erow ars rrs w'.
           process_edition h mun bid e acc w
             = (Inr (fst acc @ [erow], fst (snd acc) @ ars, snd (snd acc) @ rrs), w')
           \<and> list_all2 (row_of_article h (backend w')) (articles e) ars
           \<and> length rrs = length (articles e)
           \<and> evolves h (backend w) (backend w')"
proof -
  let ?w1 = "w\<lparr>ticks := Suc (ticks w)\<rparr>"
  from nofail have nofail1: "\<forall>p. \<not> write_fails (backend ?w1) p" by simp
  from articles_loop_rows [OF bodies nofail1, of h mun bid "metadata e"
      "generate_edition_hash h e" pd "parts_of pd" "(fst (snd acc), snd (snd acc))"]
  obtain ars rrs w' where
    loop: "articles_loop h mun bid (metadata e) (generate_edition_hash h e) pd (parts_of pd)
             (articles e) (fst (snd acc), snd (snd acc)) ?w1
           = (Inr (fst (snd acc) @ ars, snd (snd acc) @ rrs), w')"
    and rows: "list_all2 (row_of_article h (backend w')) (articles e) ars"
    and len: "length rrs = length (articles e)"
    and ev: "evolves h (backend w) (backend w')"
    by auto
  have "\<exists>erow. process_edition h mun bid e acc w
          = (Inr (fst acc @ [erow], fst (snd acc) @ ars, snd (snd acc) @ rrs), w')"
    using loop
    by (simp add: process_edition_def publication_date_parts_def date now_def Let_def split_def)
  with rows len ev show ?thesis by blast
qed

lemma editions_loop_rows:
  assumes "\<forall>e \<in> set es. \<exists>pd. strptime_ymd (publication_date (metadata e)) = Inr pd"
    and "\<forall>e \<in> set es. \<forall>a \<in> set (articles e).
           body_bytes (raw_content (article_content a)) \<noteq> None"
    and "\<forall>p. \<not> write_fails (backend w) p"
  shows "\<exists>ers ars rrs w'.
           editions_loop h mun bid es acc w
             = (Inr (fst acc @ ers, fst (snd acc) @ ars, snd (snd acc) @ rrs), w')
           \<and> length ers = length es
           \<and> list_all2 (row_of_article h (backend w')) (concat (map articles es)) ars
           \<and> length rrs = length ars
           \<and> evolves h (backend w) (backend w')"
  using assms
proof (induction es arbitrary: acc w)
  case Nil
  then show ?case by (simp add: evolves_refl)
next
  case (Cons e es)
  from Cons.prems(1) obtain pd where date: "strptime_ymd (publication_date (metadata e)) = Inr pd"
    by auto
  from Cons.prems(2)
  have bodies: "\<forall>a \<in> set (articles e). body_bytes (raw_content (article_content a)) \<noteq> None"
    by simp
  from process_edition_rows [OF date bodies Cons.prems(3), of h mun bid acc]
  obtain erow ars1 rrs1 w1 where
    step: "process_edition h mun bid e acc w
             = (Inr (fst acc @ [erow], fst (snd acc) @ ars1, snd (snd acc) @ rrs1), w1)"
    and rows1: "list_all2 (row_of_article h (backend w1)) (articles e) ars1"
    and len1: "length rrs1 = length (articles e)"
    and ev1: "evolves h (backend w) (backend w1)"
    by blast
  from ev1 Cons.prems(3) have nofail: "\<forall>p. \<not> write_fails (backend w1) p"
    by (simp add: evolves_def)
  from Cons.prems(1)
  have dates: "\<forall>e \<in> set es. \<exists>pd. strptime_ymd (publication_date (metadata e)) = Inr pd"
    by simp
  from Cons.prems(2)
  have rest: "\<forall>e \<in> set es. \<forall>a \<in> set (articles e).
                body_bytes (raw_content (article_content a)) \<noteq> None"
    by simp
  from Cons.IH [OF dates rest nofail,
      of "(fst acc @ [erow], fst (snd acc) @ ars1, snd (snd acc) @ rrs1)"]
  obtain ers ars2 rrs2 w' where
    loop: "editions_loop h mun bid es
             (fst acc @ [erow], fst (snd acc) @ ars1, snd (snd acc) @ rrs1) w1
           = (Inr ((fst acc @ [erow]) @ ers, (fst (snd acc) @ ars1) @ ars2,
                   (snd (snd acc) @ rrs1) @ rrs2), w')"
    and lene: "length ers = length es"
    and rows2: "list_all2 (row_of_article h (backend w')) (concat (map articles es)) ars2"
    and len2: "length rrs2 = length ars2"
    and ev2: "evolves h (backend w1) (backend w')"
    by auto
  have "editions_loop h mun bid (e # es) acc w
          = (Inr (fst acc @ (erow # ers), fst (snd acc) @ (ars1 @ ars2),
                  snd (snd acc) @ (rrs1 @ rrs2)), w')"
    using step loop by simp
  moreover have "length (erow # ers) = length (e # es)" using lene by simp
  moreover have "list_all2 (row_of_article h (backend w'))
                   (concat (map articles (e # es))) (ars1 @ ars2)"
  proof -
    have "list_all2 (row_of_article h (backend w')) (articles e) ars1"
      using rows1 row_of_article_mono [OF ev2]
      by (rule list_all2_mono)
    with rows2 show ?thesis by (simp add: list_all2_appendI)
  qed
  moreover have "length (rrs1 @ rrs2) = length (ars1 @ ars2)"
    using len1 len2 rows1 by (simp add: list_all2_lengthD)
  moreover have "evolves h (backend w) (backend w')" by (rule evolves_trans [OF ev1 ev2])
  ultimately show ?case by blast
qed

lemma persist_rows:
  assumes "\<forall>p. \<not> write_fails (backend w) p"
  shows "\<exists>st w'. persist mun ts bid ers ars rrs w = (Inr st, w')
     \<and> st_editions st = length ers \<and> st_articles st = length ars
     \<and> st_relationships st = length rrs
     \<and> (ars \<noteq> [] \<longrightarrow>
          map_of (files (backend w')) (''articles/batch_'' @ ts @ ''.parquet'')
            = Some (ParquetFile (ArticlesTable ars)))
     \<and> calls (backend w') =
          calls (backend w)
          @ (if ers = [] then [] else [WriteParquet (''gazettes/batch_'' @ ts @ ''.parquet'')])
          @ (if ars = [] then [] else [WriteParquet (''articles/batch_'' @ ts @ ''.parquet'')])
          @ (if rrs = [] then []
             else [WriteParquet (''relationships/batch_'' @ ts @ ''.parquet'')])"
  using assms
  by (simp add: persist_def write_rows_unfold Let_def update_conv')



lemma save_editions_runs:
  assumes ne: "editions \<noteq> []"
    and dates: "\<forall>e \<in> set editions. \<exists>pd. strptime_ymd (publication_date (metadata e)) = Inr pd"
    and bodies: "\<forall>e \<in> set editions. \<forall>a \<in> set (articles e).
                   body_bytes (raw_content (article_content a)) \<noteq> None"
    and nofail: "\<forall>p. \<not> write_fails (backend w) p"
  shows "\<exists>ers ars rrs w2.
     editions_loop h (case kw_municipality kwargs of None \<Rightarrow> [] | Some m \<Rightarrow> m)
         (case kw_batch_id kwargs of
            None \<Rightarrow> ''batch_'' @ strftime_compact (clock w (ticks w)) | Some b \<Rightarrow> b)
         editions ([], [], []) (w\<lparr>ticks := Suc (ticks w)\<rparr>) = (Inr (ers, ars, rrs), w2)
     \<and> save_editions h editions kwargs w =
         persist (case kw_municipality kwargs of None \<Rightarrow> [] | Some m \<Rightarrow> m)
           (strftime_compact (clock w (ticks w)))
           (case kw_batch_id kwargs of
              None \<Rightarrow> ''batch_'' @ strftime_compact (clock w (ticks w)) | Some b \<Rightarrow> b)
           ers ars rrs w2
     \<and> length ers = length editions \<and> length rrs = length ars
     \<and> list_all2 (row_of_article h (backend w2)) (concat (map articles editions)) ars
     \<and> evolves h (backend w) (backend w2)"
proof -
  let ?w1 = "w\<lparr>ticks := Suc (ticks w)\<rparr>"
  from nofail have nofail1: "\<forall>p. \<not> write_fails (backend ?w1) p" by simp
  from editions_loop_rows [OF dates bodies nofail1, of h
      "case kw_municipality kwargs of None \<Rightarrow> [] | Some m \<Rightarrow> m"
      "case kw_batch_id kwargs of
         None \<Rightarrow> ''batch_'' @ strftime_compact (clock w (ticks w)) | Some b \<Rightarrow> b"
      "([], [], [])"]
  obtain ers ars rrs w2 where
    loop: "editions_loop h (case kw_municipality kwargs of None \<Rightarrow> [] | Some m \<Rightarrow> m)
         (case kw_batch_id kwargs of
            None \<Rightarrow> ''batch_'' @ strftime_compact (clock w (ticks w)) | Some b \<Rightarrow> b)
         editions ([], [], []) ?w1 = (Inr (ers, ars, rrs), w2)"
    and facts: "length ers = length editions" "length rrs = length ars"
      "list_all2 (row_of_article h (backend w2)) (concat (map articles editions)) ars"
      "evolves h (backend ?w1) (backend w2)"
    by (auto simp del: editions_loop.simps)
  have "save_editions h editions kwargs w =
         persist (case kw_municipality kwargs of None \<Rightarrow> [] | Some m \<Rightarrow> m)
           (strftime_compact (clock w (ticks w)))
           (case kw_batch_id kwargs of
              None \<Rightarrow> ''batch_'' @ strftime_compact (clock w (ticks w)) | Some b \<Rightarrow> b)
           ers ars rrs w2"
    unfolding save_editions_nonempty [OF ne] loop by simp
  with loop facts show ?thesis by auto
qed


lemma row_missing_body:
  assumes "row_of_article h b a r" and "raw_content (article_content a) = RawNone"
  shows "missing_body_row r"
  using assms
  by (simp add: row_of_article_def body_bytes_def body_text_def stored_inline_def
      missing_body_row_def)

lemma process_article_unencodable:
  assumes "body_bytes (raw_content (article_content art)) = None"
  shows "process_article h mun bid meta eh pd pp art w = (Inl UnicodeEncodeError, w)"
  using assms
  by (cases "raw_content (article_content art)")
    (auto simp: process_article_def normalize_content_def body_bytes_def split: option.splits)

lemma articles_loop_unencodable:
  "a \<in> set arts \<Longrightarrow> body_bytes (raw_content (article_content a)) = None \<Longrightarrow>
   \<exists>err w'. articles_loop h mun bid meta eh pd pp arts acc w = (Inl err, w')"
proof (induction arts arbitrary: acc w)
  case Nil
  then show ?case by simp
next
  case (Cons a' arts)
  obtain res w1 where step: "process_article h mun bid meta eh pd pp a' w = (res, w1)"
    by (cases "process_article h mun bid meta eh pd pp a' w")
  show ?case
  proof (cases res)
    case (Inl err)
    with step show ?thesis by simp
  next
    case (Inr rows)
    with step process_article_unencodable [of a' h mun bid meta eh pd pp w] Cons.prems
    have "a \<in> set arts" by (cases "a = a'") auto
    from Cons.IH [OF this Cons.prems(2)] step Inr show ?thesis
      by (cases rows) simp
  qed
qed

lemma process_edition_unencodable:
  assumes "a \<in> set (articles e)" and "body_bytes (raw_content (article_content a)) = None"
  shows "\<exists>err w'. process_edition h mun bid e acc w = (Inl err, w')"
proof (cases "strptime_ymd (publication_date (metadata e))")
  case (Inl x)
  from process_edition_bad_date [OF Inl] show ?thesis by blast
next
  case (Inr pd)
  from articles_loop_unencodable [OF assms] obtain err w3 where
    "articles_loop h mun bid (metadata e) (generate_edition_hash h e) pd (parts_of pd)
       (articles e) (fst (snd acc), snd (snd acc)) (w\<lparr>ticks := Suc (ticks w)\<rparr>) = (Inl err, w3)"
    by blast
  with Inr show ?thesis
    by (simp add: process_edition_def publication_date_parts_def now_def Let_def split_def)
qed

lemma editions_loop_unencodable:
  "e \<in> set es \<Longrightarrow> a \<in> set (articles e) \<Longrightarrow>
   body_bytes (raw_content (article_content a)) = None \<Longrightarrow>
   \<exists>err w'. editions_loop h mun bid es acc w = (Inl err, w')"
proof (induction es arbitrary: acc w)
  case Nil
  then show ?case by simp
next
  case (Cons e' es)
  obtain res w1 where step: "process_edition h mun bid e' acc w = (res, w1)"
    by (cases "process_edition h mun bid e' acc w")
  show ?case
  proof (cases res)
    case (Inl err)
    with step show ?thesis by simp
  next
    case (Inr acc1)
    with step process_edition_unencodable [OF Cons.prems(2,3), of h mun bid acc w] Cons.prems(1)
    have "e \<in> set es" by (cases "e = e'") auto
    from Cons.IH [OF this Cons.prems(2,3)] step Inr show ?thesis by simp
  qed
qed

lemma unencodable_body_raises:
  assumes "e \<in> set editions" and "a \<in> set (articles e)"
    and "body_bytes (raw_content (article_content a)) = None"
  shows "\<exists>err w'. save_editions h editions kwargs w = (Inl err, w')"
proof -
  from assms(1) have ne: "editions \<noteq> []" by auto
  from editions_loop_unencodable [OF assms] obtain err w2 where
    "editions_loop h (case kw_municipality kwargs of None \<Rightarrow> [] | Some m \<Rightarrow> m)
       (case kw_batch_id kwargs of
          None \<Rightarrow> ''batch_'' @ strftime_compact (clock w (ticks w)) | Some b \<Rightarrow> b)
       editions ([], [], []) (w\<lparr>ticks := Suc (ticks w)\<rparr>) = (Inl err, w2)"
    by blast
  then show ?thesis
    unfolding save_editions_nonempty [OF ne] by simp
qed

section \<open>Inline or blob, in the saved table\<close>






section \<open>Articles without a body, in the saved table\<close>

lemma process_article_none_backend:
  assumes "raw_content (article_content art) = RawNone"
    and "process_article h mun bid meta eh pd pp art w = (r, w')"
  shows "backend w' = backend w"
proof -
  from process_article_missing_body [OF assms(1), of h mun bid meta eh pd pp w]
  obtain arow rrow w'' where
    "process_article h mun bid meta eh pd pp art w = (Inr (arow, rrow), w'')"
    "backend w'' = backend w"
    by blast
  with assms(2) show ?thesis by simp
qed

lemma articles_loop_none_backend:
  "\<forall>a \<in> set arts. raw_content (article_content a) = RawNone \<Longrightarrow>
   articles_loop h mun bid meta eh pd pp arts acc w = (r, w') \<Longrightarrow> backend w' = backend w"
proof (induction arts arbitrary: acc w)
  case Nil
  then show ?case by auto
next
  case (Cons a arts)
  obtain res w1 where step: "process_article h mun bid meta eh pd pp a w = (res, w1)"
    by (cases "process_article h mun bid meta eh pd pp a w")
  from Cons.prems(1) have "raw_content (article_content a) = RawNone" by simp
  from process_article_none_backend [OF this step] have b1: "backend w1 = backend w" .
  show ?case
  proof (cases res)
    case (Inl e)
    with Cons.prems(2) step b1 show ?thesis by auto
  next
    case (Inr rows)
    obtain arow rrow where rows: "rows = (arow, rrow)" by (cases rows)
    from Cons.prems(2) step Inr rows
    have rest: "articles_loop h mun bid meta eh pd pp arts (fst acc @ [arow], snd acc @ [rrow]) w1
                  = (r, w')"
      by simp
    from Cons.prems(1) have "\<forall>a \<in> set arts. raw_content (article_content a) = RawNone" by simp
    from Cons.IH [OF this rest] b1 show ?thesis by simp
  qed
qed

lemma process_edition_none_backend:
  assumes "\<forall>a \<in> set (articles e). raw_content (article_content a) = RawNone"
    and "process_edition h mun bid e acc w = (r, w')"
  shows "backend w' = backend w"
proof (cases "strptime_ymd (publication_date (metadata e))")
  case (Inl x)
  from assms(2) process_edition_bad_date [OF Inl, of h mun bid acc w] show ?thesis by auto
next
  case (Inr pd)
  let ?w1 = "w\<lparr>ticks := Suc (ticks w)\<rparr>"
  obtain res w3 where
    loop: "articles_loop h mun bid (metadata e) (generate_edition_hash h e) pd (parts_of pd)
             (articles e) (fst (snd acc), snd (snd acc)) ?w1 = (res, w3)"
    by (cases "articles_loop h mun bid (metadata e) (generate_edition_hash h e) pd (parts_of pd)
             (articles e) (fst (snd acc), snd (snd acc)) ?w1")
  from articles_loop_none_backend [OF assms(1) loop] have b3: "backend w3 = backend w" by simp
  from assms(2) loop Inr have "w' = w3"
    by (auto simp: process_edition_def publication_date_parts_def now_def Let_def split_def
        split: sum.splits)
  with b3 show ?thesis by simp
qed

lemma editions_loop_none_backend:
  "\<forall>e \<in> set es. \<forall>a \<in> set (articles e). raw_content (article_content a) = RawNone \<Longrightarrow>
   editions_loop h mun bid es acc w = (r, w') \<Longrightarrow> backend w' = backend w"
proof (induction es arbitrary: acc w)
  case Nil
  then show ?case by auto
next
  case (Cons e es)
  obtain res w1 where step: "process_edition h mun bid e acc w = (res, w1)"
    by (cases "process_edition h mun bid e acc w")
  from Cons.prems(1) have "\<forall>a \<in> set (articles e). raw_content (article_content a) = RawNone"
    by simp
  from process_edition_none_backend [OF this step] have b1: "backend w1 = backend w" .
  show ?case
  proof (cases res)
    case (Inl err)
    with Cons.prems(2) step b1 show ?thesis by auto
  next
    case (Inr acc1)
    from Cons.prems(2) step Inr
    have rest: "editions_loop h mun bid es acc1 w1 = (r, w')" by simp
    from Cons.prems(1)
    have "\<forall>e \<in> set es. \<forall>a \<in> set (articles e). raw_content (article_content a) = RawNone"
      by simp
    from Cons.IH [OF this rest] b1 show ?thesis by simp
  qed
qed

text \<open>
  C10. Under the same conditions, in the article table that \<open>save_editions\<close>
  writes, the row of every article whose raw body is \<^verbatim>\<open>None\<close> has \<open>inline_text\<close> equal
  to the empty string (not null), \<open>content_size\<close> 0, and \<open>content_hash\<close> and
  \<open>content_path\<close> null. A missing body never reaches the blob store and never makes
  the call fail: for a batch in which every body is missing the call returns and
  the only backend calls are the table writes.
\<close>

theorem missing_body_inline:
  assumes ne: "editions \<noteq> []"
    and dates: "\<forall>e \<in> set editions. \<exists>pd. strptime_ymd (publication_date (metadata e)) = Inr pd"
    and bodies: "\<forall>e \<in> set editions. \<forall>a \<in> set (articles e).
                   body_bytes (raw_content (article_content a)) \<noteq> None"
    and nofail: "\<forall>p. \<not> write_fails (backend w) p"
  shows "\<exists>st w' rows.
           save_editions h editions kwargs w = (Inr st, w')
           \<and> st_articles st = length rows
           \<and> length rows = length (concat (map articles editions))
           \<and> (rows \<noteq> [] \<longrightarrow>
                map_of (files (backend w'))
                  (''articles/batch_'' @ strftime_compact (clock w (ticks w)) @ ''.parquet'')
                  = Some (ParquetFile (ArticlesTable rows)))
           \<and> list_all2 (\<lambda>a r. raw_content (article_content a) = RawNone \<longrightarrow> missing_body_row r)
                (concat (map articles editions)) rows
           \<and> ((\<forall>e \<in> set editions. \<forall>a \<in> set (articles e).
                   raw_content (article_content a) = RawNone) \<longrightarrow>
                calls (backend w') =
                  calls (backend w)
                  @ WriteParquet (''gazettes/batch_'' @ strftime_compact (clock w (ticks w))
                                    @ ''.parquet'')
                  # (if rows = [] then []
                     else [WriteParquet (''articles/batch_''
                                           @ strftime_compact (clock w (ticks w)) @ ''.parquet''),
                           WriteParquet (''relationships/batch_''
                                           @ strftime_compact (clock w (ticks w))
                                           @ ''.parquet'')]))"
proof -
  let ?mun = "case kw_municipality kwargs of None \<Rightarrow> [] | Some m \<Rightarrow> m"
  let ?ts = "strftime_compact (clock w (ticks w))"
  let ?bid = "case kw_batch_id kwargs of None \<Rightarrow> ''batch_'' @ ?ts | Some b \<Rightarrow> b"
  from save_editions_runs [OF ne dates bodies nofail, of h kwargs]
  obtain ers rows rrs w2 where
    loop: "editions_loop h ?mun ?bid editions ([], [], []) (w\<lparr>ticks := Suc (ticks w)\<rparr>)
             = (Inr (ers, rows, rrs), w2)"
    and save: "save_editions h editions kwargs w = persist ?mun ?ts ?bid ers rows rrs w2"
    and lens: "length ers = length editions" "length rrs = length rows"
    and made: "list_all2 (row_of_article h (backend w2)) (concat (map articles editions)) rows"
    and ev2: "evolves h (backend w) (backend w2)"
    by blast
  from ev2 nofail have nofail2: "\<forall>p. \<not> write_fails (backend w2) p"
    by (simp add: evolves_def)
  from persist_rows [OF nofail2, of ?mun ?ts ?bid ers rows rrs]
  obtain st w' where
    p: "persist ?mun ?ts ?bid ers rows rrs w2 = (Inr st, w')"
    and n: "st_articles st = length rows"
    and tbl: "rows \<noteq> [] \<longrightarrow>
                map_of (files (backend w')) (''articles/batch_'' @ ?ts @ ''.parquet'')
                  = Some (ParquetFile (ArticlesTable rows))"
    and cs: "calls (backend w') =
          calls (backend w2)
          @ (if ers = [] then [] else [WriteParquet (''gazettes/batch_'' @ ?ts @ ''.parquet'')])
          @ (if rows = [] then [] else [WriteParquet (''articles/batch_'' @ ?ts @ ''.parquet'')])
          @ (if rrs = [] then []
             else [WriteParquet (''relationships/batch_'' @ ?ts @ ''.parquet'')])"
    by blast
  from lens ne have ers: "ers \<noteq> []" and rrs: "(rrs = []) = (rows = [])" by auto
  have inline: "list_all2 (\<lambda>a r. raw_content (article_content a) = RawNone \<longrightarrow> missing_body_row r)
                (concat (map articles editions)) rows"
    using made by (rule list_all2_mono) (auto dest: row_missing_body)
  from made have len: "length rows = length (concat (map articles editions))"
    by (simp add: list_all2_lengthD)
  have quiet: "(\<forall>e \<in> set editions. \<forall>a \<in> set (articles e).
                   raw_content (article_content a) = RawNone) \<longrightarrow>
                calls (backend w') =
                  calls (backend w)
                  @ WriteParquet (''gazettes/batch_'' @ ?ts @ ''.parquet'')
                  # (if rows = [] then []
                     else [WriteParquet (''articles/batch_'' @ ?ts @ ''.parquet''),
                           WriteParquet (''relationships/batch_'' @ ?ts @ ''.parquet'')])"
  proof
    assume "\<forall>e \<in> set editions. \<forall>a \<in> set (articles e).
              raw_content (article_content a) = RawNone"
    from editions_loop_none_backend [OF this loop] have "backend w2 = backend w" by simp
    with cs ers rrs show "calls (backend w') =
                  calls (backend w)
                  @ WriteParquet (''gazettes/batch_'' @ ?ts @ ''.parquet'')
                  # (if rows = [] then []
                     else [WriteParquet (''articles/batch_'' @ ?ts @ ''.parquet''),
                           WriteParquet (''relationships/batch_'' @ ?ts @ ''.parquet'')])"
      by simp
  qed
  from save p have "save_editions h editions kwargs w = (Inr st, w')" by simp
  with n len tbl inline quiet show ?thesis by blast
qed

theorem missing_body_inline_witness:
  "\<exists>st w' r.
     save_editions example_hashlib
       [\<lparr>metadata = example_metadata ''2024-03-05'', articles = [example_article RawNone]\<rparr>]
       no_kwargs (example_world []) = (Inr st, w')
     \<and> st_articles st = 1
     \<and> map_of (files (backend w')) ''articles/batch_20240305_120000.parquet''
         = Some (ParquetFile (ArticlesTable [r]))
     \<and> ar_inline_text r = Some [] \<and> ar_content_size r = 0
     \<and> ar_content_hash r = None \<and> ar_content_path r = None
     \<and> calls (backend w') =
         [WriteParquet ''gazettes/batch_20240305_120000.parquet'',
          WriteParquet ''articles/batch_20240305_120000.parquet'',
          WriteParquet ''relationships/batch_20240305_120000.parquet'']"
proof -
  let ?eds = "[\<lparr>metadata = example_metadata ''2024-03-05'',
                articles = [example_article RawNone]\<rparr>]"
  have ne: "?eds \<noteq> []" by simp
  have dates: "\<forall>e \<in> set ?eds. \<exists>pd. strptime_ymd (publication_date (metadata e)) = Inr pd"
    by (simp add: example_metadata_def example_date)
  have bodies: "\<forall>e \<in> set ?eds. \<forall>a \<in> set (articles e).
                  body_bytes (raw_content (article_content a)) \<noteq> None"
    by (simp add: example_article_def body_bytes_def)
  have nofail: "\<forall>p. \<not> write_fails (backend (example_world [])) p"
    by (simp add: example_world_def)
  have none: "\<forall>e \<in> set ?eds. \<forall>a \<in> set (articles e). raw_content (article_content a) = RawNone"
    by (simp add: example_article_def)
  have ts: "strftime_compact (clock (example_world []) (ticks (example_world [])))
              = ''20240305_120000''"
    by (simp add: example_world_def example_timestamp)
  have c0: "calls (backend (example_world [])) = []"
    by (simp add: example_world_def)
  from missing_body_inline [OF ne dates bodies nofail, of example_hashlib no_kwargs]
  obtain st w' rows where
    run: "save_editions example_hashlib ?eds no_kwargs (example_world []) = (Inr st, w')"
    and n: "st_articles st = length rows"
    and len: "length rows = length (concat (map articles ?eds))"
    and tbl: "rows \<noteq> [] \<longrightarrow>
                map_of (files (backend w')) ''articles/batch_20240305_120000.parquet''
                  = Some (ParquetFile (ArticlesTable rows))"
    and inline: "list_all2 (\<lambda>a r. raw_content (article_content a) = RawNone \<longrightarrow> missing_body_row r)
                   (concat (map articles ?eds)) rows"
    and quiet: "(\<forall>e \<in> set ?eds. \<forall>a \<in> set (articles e).
                   raw_content (article_content a) = RawNone) \<longrightarrow>
                calls (backend w') =
                  WriteParquet ''gazettes/batch_20240305_120000.parquet''
                  # (if rows = [] then []
                     else [WriteParquet ''articles/batch_20240305_120000.parquet'',
                           WriteParquet ''relationships/batch_20240305_120000.parquet''])"
    unfolding ts c0 by auto
  from inline obtain r where rows: "rows = [r]" and r: "missing_body_row r"
    by (auto simp: list_all2_Cons1 example_article_def)
  from quiet none rows have
    "calls (backend w') =
         [WriteParquet ''gazettes/batch_20240305_120000.parquet'',
          WriteParquet ''articles/batch_20240305_120000.parquet'',
          WriteParquet ''relationships/batch_20240305_120000.parquet'']"
    by simp
  with run n tbl rows r show ?thesis
    by (auto simp: missing_body_row_def)
qed

section \<open>The predicate of a query\<close>

lemma join_quoted:
  "vs \<noteq> [] \<Longrightarrow>
   CHR 0x27 # join ([CHR 0x27] @ '', '' @ [CHR 0x27]) vs @ [CHR 0x27]
     = commas (map sql_literal vs)"
proof (induction vs)
  case Nil
  then show ?case by simp
next
  case (Cons v vs)
  show ?case
  proof (cases vs)
    case Nil
    then show ?thesis by (simp add: sql_literal_def)
  next
    case (Cons u us)
    from Cons.IH Cons
    have ih: "CHR 0x27 # join ([CHR 0x27] @ '', '' @ [CHR 0x27]) (u # us) @ [CHR 0x27]
                = commas (map sql_literal (u # us))"
      by simp
    have "CHR 0x27 # join ([CHR 0x27] @ '', '' @ [CHR 0x27]) (v # u # us) @ [CHR 0x27]
            = (CHR 0x27 # v @ [CHR 0x27]) @ '', ''
                @ (CHR 0x27 # join ([CHR 0x27] @ '', '' @ [CHR 0x27]) (u # us) @ [CHR 0x27])"
      by simp
    also have "\<dots> = sql_literal v @ '', '' @ commas (map sql_literal (u # us))"
      unfolding ih by (simp add: sql_literal_def)
    also have "\<dots> = commas (map sql_literal (v # u # us))"
      by simp
    finally show ?thesis unfolding Cons .
  qed
qed

lemma clause_texts:
  "municipality_clause v = filter_sql (MunicipalityIs v)"
  "start_date_clause v = filter_sql (PublishedFrom v)"
  "end_date_clause v = filter_sql (PublishedUntil v)"
  "vs \<noteq> [] \<Longrightarrow> content_type_clause vs = filter_sql (ContentTypeIn vs)"
  using join_quoted [of vs]
  by (simp_all add: municipality_clause_def start_date_clause_def end_date_clause_def
      content_type_clause_def sql_literal_def)

lemma join_and: "fs \<noteq> [] \<Longrightarrow> join '' AND '' (map filter_sql fs) = conjunction_sql fs"
proof (induction fs)
  case Nil
  then show ?case by simp
next
  case (Cons f fs)
  then show ?case by (cases fs) simp_all
qed

lemma where_clauses_given:
  "where_clauses m s e c
     = map filter_sql (supplied_filters (given m) (given s) (given e) (given c))"
proof -
  have 1: "(if truthy m then [municipality_clause (the m)] else [])
             = map filter_sql (case given m of None \<Rightarrow> [] | Some v \<Rightarrow> [MunicipalityIs v])"
    by (auto simp: truthy_def given_def clause_texts split: option.splits)
  have 2: "(if truthy s then [start_date_clause (the s)] else [])
             = map filter_sql (case given s of None \<Rightarrow> [] | Some v \<Rightarrow> [PublishedFrom v])"
    by (auto simp: truthy_def given_def clause_texts split: option.splits)
  have 3: "(if truthy e then [end_date_clause (the e)] else [])
             = map filter_sql (case given e of None \<Rightarrow> [] | Some v \<Rightarrow> [PublishedUntil v])"
    by (auto simp: truthy_def given_def clause_texts split: option.splits)
  have 4: "(if truthy c then [content_type_clause (the c)] else [])
             = map filter_sql (case given c of None \<Rightarrow> [] | Some vs \<Rightarrow> [ContentTypeIn vs])"
    by (auto simp: truthy_def given_def clause_texts split: option.splits)
  show ?thesis
    unfolding where_clauses_def supplied_filters_def 1 2 3 4 by simp
qed

lemma where_sql_given:
  "where_sql m s e c = supplied_where_sql (given m) (given s) (given e) (given c)"
proof (cases "supplied_filters (given m) (given s) (given e) (given c) = []")
  case True
  then show ?thesis
    by (simp add: where_sql_def where_clauses_given supplied_where_sql_def)
next
  case False
  then show ?thesis
    by (simp add: where_sql_def where_clauses_given supplied_where_sql_def join_and)
qed

lemma get_uris_text:
  "fst (get_uris fs b) = map (\<lambda>f. ''file://'' @ base_path b @ ''/'' @ f) fs"
proof (induction fs arbitrary: b)
  case Nil
  then show ?case by simp
next
  case (Cons f fs)
  have "base_path (called (GetUri f) b) = base_path b" by (simp add: called_def)
  with Cons [of "called (GetUri f) b"] show ?case
    by (simp add: get_uri_def split_def)
qed

lemma query_text_words:
  "ps \<noteq> [] \<Longrightarrow>
   query_text ps wsql lsql =
     CHR 0x0A # replicate 12 CHR '' '' @ ''SELECT * FROM read_parquet(['' @ commas (map sql_literal ps)
       @ ''])'' @ CHR 0x0A # replicate 12 CHR '' '' @ ''WHERE '' @ wsql
       @ CHR 0x0A # replicate 12 CHR '' '' @ lsql @ CHR 0x0A # replicate 8 CHR '' ''"
  using join_quoted [of ps] by (simp add: query_text_def)

text \<open>
  An empty filter is supplied but ignored: with the municipality given as the empty
  string the predicate is \<open>1=1\<close> and not the equality on \<open>municipality\<close>.
\<close>

theorem where_sql_empty_filter_counterexample:
  "where_sql (Some []) None None None = ''1=1''
   \<and> supplied_where_sql (Some []) None None None = ''municipality = '' @ [CHR 0x27, CHR 0x27]
   \<and> where_sql (Some []) None None None \<noteq> supplied_where_sql (Some []) None None None"
  by (simp add: where_sql_def where_clauses_def truthy_def supplied_where_sql_def
      supplied_filters_def sql_literal_def)

lemma list_files_base_path: "base_path (snd (list_files b d x)) = base_path b"
  by (simp add: list_files_def called_def)

text \<open>
  C6 as the code has it. \<open>query_articles\<close> hands the engine one statement,
  \<^verbatim>\<open>SELECT * FROM read_parquet([<files>]) WHERE <predicate> <limit>\<close>, and its predicate
  is the conjunction, joined by \<open>AND\<close>, of the filters that are given and not empty:
  \<open>municipality = '<value>'\<close>, \<open>publication_date >= '<start_date>'\<close>,
  \<open>publication_date <= '<end_date>'\<close> (the range includes both ends) and
  \<open>content_type IN ('<type>', ...)\<close>, in this order; a filter that is \<^verbatim>\<open>None\<close>, the
  empty string or the empty list adds no clause. When every filter given is
  non-empty this is the conjunction of the supplied filters, and with no filter the
  predicate is \<open>1=1\<close>.
\<close>

theorem where_sql_conjunction:
  "where_sql m s e c = supplied_where_sql (given m) (given s) (given e) (given c)
   \<and> (m \<noteq> Some [] \<and> s \<noteq> Some [] \<and> e \<noteq> Some [] \<and> c \<noteq> Some [] \<longrightarrow>
        where_sql m s e c = supplied_where_sql m s e c)
   \<and> (m = None \<and> s = None \<and> e = None \<and> c = None \<longrightarrow> where_sql m s e c = ''1=1'')
   \<and> (mv \<noteq> [] \<and> sv \<noteq> [] \<and> ev \<noteq> [] \<longrightarrow>
        where_sql (Some mv) (Some sv) (Some ev) (Some [t1, t2]) =
          ''municipality = '' @ CHR 0x27 # mv @ CHR 0x27 # '' AND publication_date >= ''
            @ CHR 0x27 # sv @ CHR 0x27 # '' AND publication_date <= '' @ CHR 0x27 # ev
            @ CHR 0x27 # '' AND content_type IN ('' @ CHR 0x27 # t1 @ CHR 0x27 # '', ''
            @ CHR 0x27 # t2 @ CHR 0x27 # '')'')
   \<and> (enable_duckdb self \<and> fst (list_files (backend w) ''articles'' (Some ''.parquet'')) \<noteq> [] \<longrightarrow>
        fst (query_articles self execute m s e c limit w) =
          (case execute
                  (CHR 0x0A # replicate 12 CHR '' '' @ ''SELECT * FROM read_parquet([''
                     @ commas (map (\<lambda>f. sql_literal (''file://'' @ base_path (backend w) @ ''/'' @ f))
                                 (fst (list_files (backend w) ''articles'' (Some ''.parquet''))))
                     @ ''])'' @ CHR 0x0A # replicate 12 CHR '' '' @ ''WHERE ''
                     @ supplied_where_sql (given m) (given s) (given e) (given c)
                     @ CHR 0x0A # replicate 12 CHR '' ''
                     @ (case limit of
                          None \<Rightarrow> []
                        | Some n \<Rightarrow> if n = 0 then [] else ''LIMIT '' @ str_int n)
                     @ CHR 0x0A # replicate 8 CHR '' '') of
             Inl err \<Rightarrow> Inl err
           | Inr r \<Rightarrow> Inr (Fetched r)))"
proof -
  have a: "where_sql m s e c = supplied_where_sql (given m) (given s) (given e) (given c)"
    by (rule where_sql_given)
  have b: "m \<noteq> Some [] \<and> s \<noteq> Some [] \<and> e \<noteq> Some [] \<and> c \<noteq> Some [] \<longrightarrow>
        where_sql m s e c = supplied_where_sql m s e c"
    by (simp add: a given_def)
  have c: "m = None \<and> s = None \<and> e = None \<and> c = None \<longrightarrow> where_sql m s e c = ''1=1''"
    by (simp add: where_sql_def where_clauses_def truthy_def)
  have d: "mv \<noteq> [] \<and> sv \<noteq> [] \<and> ev \<noteq> [] \<longrightarrow>
        where_sql (Some mv) (Some sv) (Some ev) (Some [t1, t2]) =
          ''municipality = '' @ CHR 0x27 # mv @ CHR 0x27 # '' AND publication_date >= ''
            @ CHR 0x27 # sv @ CHR 0x27 # '' AND publication_date <= '' @ CHR 0x27 # ev
            @ CHR 0x27 # '' AND content_type IN ('' @ CHR 0x27 # t1 @ CHR 0x27 # '', ''
            @ CHR 0x27 # t2 @ CHR 0x27 # '')''"
    by (simp add: where_sql_given given_def supplied_where_sql_def supplied_filters_def
        sql_literal_def)
  have lim: "limit_sql limit =
               (case limit of None \<Rightarrow> [] | Some n \<Rightarrow> if n = 0 then [] else ''LIMIT '' @ str_int n)"
    by (simp add: limit_sql_def split: option.splits)
  have e: "enable_duckdb self \<and> fst (list_files (backend w) ''articles'' (Some ''.parquet'')) \<noteq> [] \<longrightarrow>
        fst (query_articles self execute m s e c limit w) =
          (case execute
                  (CHR 0x0A # replicate 12 CHR '' '' @ ''SELECT * FROM read_parquet([''
                     @ commas (map (\<lambda>f. sql_literal (''file://'' @ base_path (backend w) @ ''/'' @ f))
                                 (fst (list_files (backend w) ''articles'' (Some ''.parquet''))))
                     @ ''])'' @ CHR 0x0A # replicate 12 CHR '' '' @ ''WHERE ''
                     @ supplied_where_sql (given m) (given s) (given e) (given c)
                     @ CHR 0x0A # replicate 12 CHR '' ''
                     @ (case limit of
                          None \<Rightarrow> []
                        | Some n \<Rightarrow> if n = 0 then [] else ''LIMIT '' @ str_int n)
                     @ CHR 0x0A # replicate 8 CHR '' '') of
             Inl err \<Rightarrow> Inl err
           | Inr r \<Rightarrow> Inr (Fetched r))"
  proof
    assume h: "enable_duckdb self
               \<and> fst (list_files (backend w) ''articles'' (Some ''.parquet'')) \<noteq> []"
    let ?fs = "fst (list_files (backend w) ''articles'' (Some ''.parquet''))"
    let ?b1 = "snd (list_files (backend w) ''articles'' (Some ''.parquet''))"
    have uris: "fst (get_uris ?fs ?b1)
                  = map (\<lambda>f. ''file://'' @ base_path (backend w) @ ''/'' @ f) ?fs"
      by (simp add: get_uris_text list_files_base_path)
    from h have ne: "map (\<lambda>f. ''file://'' @ base_path (backend w) @ ''/'' @ f) ?fs \<noteq> []"
      by simp
    have "fst (query_articles self execute m s e c limit w) =
            (case execute (query_text (fst (get_uris ?fs ?b1)) (where_sql m s e c)
                             (limit_sql limit)) of
               Inl err \<Rightarrow> Inl err | Inr r \<Rightarrow> Inr (Fetched r))"
      using h by (simp add: query_articles_def split_def Let_def split: sum.splits)
    then show "fst (query_articles self execute m s e c limit w) =
          (case execute
                  (CHR 0x0A # replicate 12 CHR '' '' @ ''SELECT * FROM read_parquet([''
                     @ commas (map (\<lambda>f. sql_literal (''file://'' @ base_path (backend w) @ ''/'' @ f))
                                 (fst (list_files (backend w) ''articles'' (Some ''.parquet''))))
                     @ ''])'' @ CHR 0x0A # replicate 12 CHR '' '' @ ''WHERE ''
                     @ supplied_where_sql (given m) (given s) (given e) (given c)
                     @ CHR 0x0A # replicate 12 CHR '' ''
                     @ (case limit of
                          None \<Rightarrow> []
                        | Some n \<Rightarrow> if n = 0 then [] else ''LIMIT '' @ str_int n)
                     @ CHR 0x0A # replicate 8 CHR '' '') of
             Inl err \<Rightarrow> Inl err
           | Inr r \<Rightarrow> Inr (Fetched r))"
      unfolding uris a lim query_text_words [OF ne] by (simp add: comp_def)
  qed
  from a b c d e show ?thesis by blast
qed

lemma example_listing:
  "fst (list_files (backend example_article_store) ''articles'' (Some ''.parquet''))
     = [''articles/batch_20240305_120000.parquet'']"
  by code_simp

lemma spaces_12: "replicate 12 CHR '' '' = ''            ''"
  by (simp add: eval_nat_numeral)

lemma spaces_8: "replicate 8 CHR '' '' = ''        ''"
  by (simp add: eval_nat_numeral)

theorem where_sql_conjunction_witness:
  "where_sql (Some ''sp'') (Some ''2024-01-01'') (Some ''2024-12-31'') (Some [''text'', ''pdf''])
     = ''municipality = '' @ CHR 0x27 # ''sp'' @ CHR 0x27 # '' AND publication_date >= '' @ CHR 0x27 # ''2024-01-01''
           @ CHR 0x27 # '' AND publication_date <= '' @ CHR 0x27 # ''2024-12-31'' @ CHR 0x27
           # '' AND content_type IN ('' @ CHR 0x27 # ''text'' @ CHR 0x27 # '', '' @ CHR 0x27 # ''pdf''
           @ CHR 0x27 # '')''
   \<and> where_sql (Some ''sp'') None None None = ''municipality = '' @ CHR 0x27 # ''sp'' @ [CHR 0x27]
   \<and> where_sql None None None None = ''1=1''
   \<and> fst (query_articles \<lparr>partition_by = ''day'', enable_duckdb = True\<rparr> (\<lambda>q. Inr q)
             (Some ''sp'') (Some ''2024-01-01'') (Some ''2024-12-31'') (Some [''text'', ''pdf''])
             (Some 10) example_article_store)
       = Inr (Fetched (CHR 0x0A # ''            SELECT * FROM read_parquet(['' @ CHR 0x27
           # ''file://data/raw/articles/batch_20240305_120000.parquet'' @ CHR 0x27 # ''])''
           @ CHR 0x0A # ''            WHERE municipality = '' @ CHR 0x27 # ''sp'' @ CHR 0x27
           # '' AND publication_date >= '' @ CHR 0x27 # ''2024-01-01''
           @ CHR 0x27 # '' AND publication_date <= '' @ CHR 0x27 # ''2024-12-31'' @ CHR 0x27
           # '' AND content_type IN ('' @ CHR 0x27 # ''text'' @ CHR 0x27 # '', '' @ CHR 0x27 # ''pdf''
           @ CHR 0x27 # '')'' @ CHR 0x0A # ''            LIMIT 10'' @ CHR 0x0A # ''        ''))"
proof -
  have l: "str_int 10 = ''10''"
    by (simp add: str_int_def str_nat.simps digit_char_def)
  have bp: "base_path (backend example_article_store) = ''data/raw''"
    by (simp add: example_article_store_def example_world_def)
  note inst = where_sql_conjunction
         [where m = "Some ''sp''" and s = "Some ''2024-01-01''" and e = "Some ''2024-12-31''"
            and c = "Some [''text'', ''pdf'']"
            and mv = "''sp''" and sv = "''2024-01-01''" and ev = "''2024-12-31''"
            and ?t1.0 = "''text''" and ?t2.0 = "''pdf''"
            and self = "\<lparr>partition_by = ''day'', enable_duckdb = True\<rparr>"
            and w = example_article_store and execute = "\<lambda>q. Inr q :: error + string"
            and limit = "Some 10"]
  have filled: "''sp'' \<noteq> [] \<and> ''2024-01-01'' \<noteq> [] \<and> ''2024-12-31'' \<noteq> []"
    by simp
  from inst filled
  have a: "where_sql (Some ''sp'') (Some ''2024-01-01'') (Some ''2024-12-31'')
             (Some [''text'', ''pdf'']) = ''municipality = '' @ CHR 0x27 # ''sp'' @ CHR 0x27 # '' AND publication_date >= '' @ CHR 0x27 # ''2024-01-01''
           @ CHR 0x27 # '' AND publication_date <= '' @ CHR 0x27 # ''2024-12-31'' @ CHR 0x27
           # '' AND content_type IN ('' @ CHR 0x27 # ''text'' @ CHR 0x27 # '', '' @ CHR 0x27 # ''pdf''
           @ CHR 0x27 # '')''"
    by blast
  from where_sql_conjunction
         [where m = "Some ''sp''" and s = None and e = None and c = None
            and mv = "''sp''" and sv = "''2024-01-01''" and ev = "''2024-12-31''"
            and ?t1.0 = "''text''" and ?t2.0 = "''pdf''"
            and self = "\<lparr>partition_by = ''day'', enable_duckdb = True\<rparr>"
            and w = example_article_store and execute = "\<lambda>q. Inr q :: error + string"
            and limit = "Some 10"]
  have b: "where_sql (Some ''sp'') None None None
             = ''municipality = '' @ CHR 0x27 # ''sp'' @ [CHR 0x27]"
    by (simp add: supplied_where_sql_def supplied_filters_def sql_literal_def given_def)
  from where_sql_conjunction
         [where m = None and s = None and e = None and c = None
            and mv = "''sp''" and sv = "''2024-01-01''" and ev = "''2024-12-31''"
            and ?t1.0 = "''text''" and ?t2.0 = "''pdf''"
            and self = "\<lparr>partition_by = ''day'', enable_duckdb = True\<rparr>"
            and w = example_article_store and execute = "\<lambda>q. Inr q :: error + string"
            and limit = "Some 10"]
  have c: "where_sql None None None None = ''1=1''"
    by blast
  from inst
  have d: "fst (query_articles \<lparr>partition_by = ''day'', enable_duckdb = True\<rparr> (\<lambda>q. Inr q)
             (Some ''sp'') (Some ''2024-01-01'') (Some ''2024-12-31'') (Some [''text'', ''pdf''])
             (Some 10) example_article_store)
       = Inr (Fetched (CHR 0x0A # ''            SELECT * FROM read_parquet(['' @ CHR 0x27
           # ''file://data/raw/articles/batch_20240305_120000.parquet'' @ CHR 0x27 # ''])''
           @ CHR 0x0A # ''            WHERE municipality = '' @ CHR 0x27 # ''sp'' @ CHR 0x27
           # '' AND publication_date >= '' @ CHR 0x27 # ''2024-01-01''
           @ CHR 0x27 # '' AND publication_date <= '' @ CHR 0x27 # ''2024-12-31'' @ CHR 0x27
           # '' AND content_type IN ('' @ CHR 0x27 # ''text'' @ CHR 0x27 # '', '' @ CHR 0x27 # ''pdf''
           @ CHR 0x27 # '')'' @ CHR 0x0A # ''            LIMIT 10'' @ CHR 0x0A # ''        ''))"
    by (simp add: example_listing bp l spaces_12 spaces_8 sql_literal_def
        supplied_where_sql_def supplied_filters_def given_def)
  from a b c d show ?thesis by blast
qed

end
